theory Spec2Isabelle
  imports Main
begin

section \<open>Strings\<close>

text \<open>
  A JavaScript string is a sequence of UTF-16 code units. The model keeps the code units
  below 256 (type \<open>char\<close>), which covers every literal of the source. In that range the
  white space of \<^verbatim>\<open>String.prototype.trim\<close> and of the regular expression class
  \<^verbatim>\<open>\s\<close> is TAB, LF, VT, FF, CR, SPACE and NBSP.
\<close>

definition isWhiteSpace :: "char \<Rightarrow> bool" where
  "isWhiteSpace c =
     (let n = (of_char c :: nat) in (9 \<le> n \<and> n \<le> 13) \<or> n = 32 \<or> n = 160)"

definition trim :: "string \<Rightarrow> string" where
  "trim s = rev (dropWhile isWhiteSpace (rev (dropWhile isWhiteSpace s)))"

text \<open>
  \<^verbatim>\<open>s.split(/[class]+/)\<close>: the pieces between maximal runs of separator characters. A run at
  the start or at the end of the string leaves an empty piece there, and the empty string
  splits into one empty piece.
\<close>

function split_re :: "(char \<Rightarrow> bool) \<Rightarrow> string \<Rightarrow> string list" where
  "split_re sep [] = [[]]"
| "split_re sep (c # cs) =
     (if sep c then [] # split_re sep (dropWhile sep cs)
      else (case split_re sep cs of
              [] \<Rightarrow> [[c]]
            | piece # pieces \<Rightarrow> (c # piece) # pieces))"
  by pat_completeness auto
termination
  by (relation "measure (\<lambda>(sep, s). length s)")
     (auto simp: length_dropWhile_le less_Suc_eq_le)

text \<open>\<^verbatim>\<open>s.split('\n')\<close>: every line feed separates two pieces.\<close>

fun split_lines :: "string \<Rightarrow> string list" where
  "split_lines [] = [[]]"
| "split_lines (c # cs) =
     (if c = CHR 0x0A then [] # split_lines cs
      else (case split_lines cs of
              [] \<Rightarrow> [[c]]
            | piece # pieces \<Rightarrow> (c # piece) # pieces))"

text \<open>
  \<^verbatim>\<open>s.replace(/<[^>]*>/g, '')\<close>: scanning from the left, a \<^verbatim>\<open><\<close> that has a \<^verbatim>\<open>>\<close> somewhere
  after it is removed together with everything up to the nearest such \<^verbatim>\<open>>\<close>; a \<^verbatim>\<open><\<close> with
  no \<^verbatim>\<open>>\<close> after it stays.
\<close>

function stripTags :: "string \<Rightarrow> string" where
  "stripTags [] = []"
| "stripTags (c # cs) =
     (if c = CHR ''<'' \<and> CHR ''>'' \<in> set cs
      then stripTags (tl (dropWhile (\<lambda>x. x \<noteq> CHR ''>'') cs))
      else c # stripTags cs)"
  by pat_completeness auto
termination
  by (relation "measure length")
     (auto simp: less_Suc_eq_le intro: order_trans [OF diff_le_self length_dropWhile_le])

text \<open>The class \<^verbatim>\<open>[a-z0-9]\<close> under the flag \<^verbatim>\<open>i\<close>: ASCII letters and digits.\<close>

definition isAlnum :: "char \<Rightarrow> bool" where
  "isAlnum c =
     (let n = (of_char c :: nat)
      in (97 \<le> n \<and> n \<le> 122) \<or> (65 \<le> n \<and> n \<le> 90) \<or> (48 \<le> n \<and> n \<le> 57))"

text \<open>
  \<^verbatim>\<open>toLowerCase\<close> on one code unit below 256: the ASCII capitals and the Latin-1 capitals
  (0xC0 to 0xDE without the multiplication sign 0xD7) move up by 32.
\<close>

definition toLowerCase_char :: "char \<Rightarrow> char" where
  "toLowerCase_char c =
     (let n = (of_char c :: nat)
      in if (65 \<le> n \<and> n \<le> 90) \<or> (192 \<le> n \<and> n \<le> 222 \<and> n \<noteq> 215)
         then char_of (n + 32) else c)"

definition toLowerCase :: "string \<Rightarrow> string" where
  "toLowerCase s = map toLowerCase_char s"

text \<open>\<^verbatim>\<open>'' + n\<close> for a non-negative integer: its decimal digits.\<close>

function decimal :: "nat \<Rightarrow> string" where
  "decimal n =
     (if n < 10 then [''0123456789'' ! n]
      else decimal (n div 10) @ [''0123456789'' ! (n mod 10)])"
  by pat_completeness auto
termination
  by (relation "measure id") auto

declare decimal.simps [simp del]

text \<open>\<^verbatim>\<open>xs.findIndex(p)\<close>, with \<open>None\<close> for the result -1.\<close>

fun findIndex :: "('a \<Rightarrow> bool) \<Rightarrow> 'a list \<Rightarrow> nat option" where
  "findIndex p [] = None"
| "findIndex p (x # xs) =
     (if p x then Some 0 else map_option Suc (findIndex p xs))"

section \<open>The document object model\<close>

text \<open>
  The browser's HTML parser is outside the repository. What the source reads of it is taken
  as a parameter: for an HTML fragment assigned to \<^verbatim>\<open>innerHTML\<close> of a fresh element, the
  element's \<^verbatim>\<open>textContent\<close> and \<^verbatim>\<open>innerText\<close>.
\<close>

record dom =
  textContent :: "string \<Rightarrow> string"
  innerText :: "string \<Rightarrow> string"

text \<open>\<^verbatim>\<open>tempDiv.textContent || tempDiv.innerText || ''\<close>\<close>

definition plainTextOf :: "dom \<Rightarrow> string \<Rightarrow> string" where
  "plainTextOf d html =
     (if textContent d html \<noteq> [] then textContent d html
      else if innerText d html \<noteq> [] then innerText d html
      else [])"

section \<open>Note statistics\<close>

record stats =
  words :: nat
  characters :: nat
  sentences :: nat

definition isTerminator :: "char \<Rightarrow> bool" where
  "isTerminator c = (c = CHR ''.'' \<or> c = CHR ''!'' \<or> c = CHR ''?'')"

definition getNoteStats :: "dom \<Rightarrow> string \<Rightarrow> stats" where
  "getNoteStats d content =
     (if content = [] then \<lparr>words = 0, characters = 0, sentences = 0\<rparr>
      else
        let plainText = plainTextOf d content
        in \<lparr>words =
              (if trim plainText \<noteq> []
               then length (split_re isWhiteSpace (trim plainText)) else 0),
            characters = length plainText,
            sentences =
              (if trim plainText \<noteq> []
               then length (filter (\<lambda>s. length (trim s) > 0)
                                   (split_re isTerminator plainText))
               else 0)\<rparr>)"

section \<open>The state of one page\<close>

text \<open>
  Time stamps (\<^verbatim>\<open>new Date().toISOString()\<close>, the table's \<^verbatim>\<open>created_at\<close> and
  \<^verbatim>\<open>updated_at\<close>) are the milliseconds of the clock they are read from.
\<close>

type_synonym timestamp = nat

record Note =
  note_id :: string
  title :: string
  content :: string
  createdAt :: timestamp
  updatedAt :: timestamp

record user =
  uid :: string
  email :: string

text \<open>A row of the remote table \<^verbatim>\<open>notes\<close>.\<close>

record row =
  row_id :: string
  user_id :: string
  row_title :: string
  row_content :: string
  created_at :: timestamp
  updated_at :: timestamp

text \<open>
  The object passed to \<^verbatim>\<open>updateNote\<close>. Its only caller in the repository passes
  \<^verbatim>\<open>{title, content}\<close>; a key that is not given is \<open>None\<close>.
\<close>

record updates =
  new_title :: "string option"
  new_content :: "string option"

text \<open>The requests the store sends to the backend, in the order they are sent.\<close>

datatype request =
  Select string
| Insert string string string
| Update string string updates timestamp
| Delete string string

text \<open>
  What the backend does with a request: it serves it, it answers with an error
  (\<^verbatim>\<open>{data: null, error}\<close>), or the promise rejects.
\<close>

datatype fault = NoFault | ErrorReply | Rejects

datatype 'a response = Data 'a | Error | Thrown

text \<open>
  A pending timer of the browser: its handle, the time it is due, and the arguments its
  callback closes over (the only callback the store schedules is the one of
  \<^verbatim>\<open>autoSaveNote\<close>).
\<close>

record timer =
  handle :: nat
  due :: nat
  cb_id :: string
  cb_content :: string

text \<open>
  One record holds the fields of the \<^verbatim>\<open>NoteManager\<close> (\<open>noteList\<close> for \<^verbatim>\<open>notes\<close>,
  \<open>activeNoteId\<close>, \<open>useDatabase\<close>, \<open>autoSaveTimeout\<close>), the user of its \<^verbatim>\<open>Auth\<close> object, and the
  environment it acts on: the two entries of \<^verbatim>\<open>localStorage\<close>, the remote table with
  the log of requests sent, the clock, the random source and the timer table.
  The backend's behaviour is an input: \<open>faults w k\<close> is the fate of the \<open>k\<close>-th request
  and \<open>row_ids w k\<close> the identifier the table gives to a row that request creates.
  The callback \<^verbatim>\<open>onNotesChange\<close> only redraws the page and is left out.
\<close>

record world =
  auth :: "user option"
  noteList :: "Note list"
  activeNoteId :: "string option"
  useDatabase :: bool
  autoSaveTimeout :: "nat option"
  ls_notes :: "Note list option"
  ls_active_id :: "string option"
  ls_writable :: bool
  table :: "row list"
  sent :: "request list"
  faults :: "nat \<Rightarrow> fault"
  row_ids :: "nat \<Rightarrow> string"
  clock :: nat
  random :: "nat \<Rightarrow> string"
  drawn :: nat
  handles :: nat
  timers :: "timer list"

section \<open>The remote table\<close>

text \<open>
  Modelled from the spec: the Remote Notes Gateway, that is the client library of the
  backend, which is not part of the repository. The requests the store builds with it act
  on a table that is a list of rows, scoped by the user's identifier: a served request has
  the effect its filters describe and answers with the rows it touched, a failed one has
  no effect.
\<close>

definition fate :: "world \<Rightarrow> fault" where
  "fate w = faults w (length (sent w))"

definition log :: "request \<Rightarrow> world \<Rightarrow> world" where
  "log r w = w\<lparr>sent := sent w @ [r]\<rparr>"

text \<open>
  Modelled from the spec: the query of \<^verbatim>\<open>migrateToDatabase\<close>,
  \<^verbatim>\<open>.from('notes').select('id').eq('user_id', u).limit(1)\<close>, answers with at most one row of
  the user.
\<close>

definition remote_select :: "string \<Rightarrow> world \<Rightarrow> row list response \<times> world" where
  "remote_select u w =
     (case fate w of
        NoFault \<Rightarrow> (Data (take 1 (filter (\<lambda>r. user_id r = u) (table w))), log (Select u) w)
      | ErrorReply \<Rightarrow> (Error, log (Select u) w)
      | Rejects \<Rightarrow> (Thrown, log (Select u) w))"

text \<open>
  Modelled from the spec: \<^verbatim>\<open>.from('notes').insert({user_id, title, content})\<close>, with or
  without \<^verbatim>\<open>.select().single()\<close>, appends a row with a generated identifier and the
  time stamps of the insert, and answers with it.
\<close>

definition remote_insert :: "string \<Rightarrow> string \<Rightarrow> string \<Rightarrow> world \<Rightarrow> row response \<times> world" where
  "remote_insert u t c w =
     (case fate w of
        NoFault \<Rightarrow>
          (let r = \<lparr>row_id = row_ids w (length (sent w)), user_id = u, row_title = t,
                    row_content = c, created_at = clock w, updated_at = clock w\<rparr>
           in (Data r, log (Insert u t c) (w\<lparr>table := table w @ [r]\<rparr>)))
      | ErrorReply \<Rightarrow> (Error, log (Insert u t c) w)
      | Rejects \<Rightarrow> (Thrown, log (Insert u t c) w))"

definition apply_updates :: "updates \<Rightarrow> timestamp \<Rightarrow> row \<Rightarrow> row" where
  "apply_updates upd ts r =
     r\<lparr>row_title := (case new_title upd of None \<Rightarrow> row_title r | Some t \<Rightarrow> t),
       row_content := (case new_content upd of None \<Rightarrow> row_content r | Some c \<Rightarrow> c),
       updated_at := ts\<rparr>"

text \<open>
  Modelled from the spec:
  \<^verbatim>\<open>.update({...updates, updated_at}).eq('id', id).eq('user_id', u).select().single()\<close>
  changes the row that matches both identifiers and answers with the changed row;
  \<^verbatim>\<open>single\<close> answers with an error when no row matches.
\<close>

definition remote_update ::
  "string \<Rightarrow> string \<Rightarrow> updates \<Rightarrow> timestamp \<Rightarrow> world \<Rightarrow> row response \<times> world" where
  "remote_update i u upd ts w =
     (case fate w of
        NoFault \<Rightarrow>
          (case findIndex (\<lambda>r. row_id r = i \<and> user_id r = u) (table w) of
             None \<Rightarrow> (Error, log (Update i u upd ts) w)
           | Some k \<Rightarrow>
               (let r = apply_updates upd ts (table w ! k)
                in (Data r, log (Update i u upd ts) (w\<lparr>table := (table w)[k := r]\<rparr>))))
      | ErrorReply \<Rightarrow> (Error, log (Update i u upd ts) w)
      | Rejects \<Rightarrow> (Thrown, log (Update i u upd ts) w))"

text \<open>
  Modelled from the spec: \<^verbatim>\<open>.delete().eq('id', id).eq('user_id', u)\<close> removes the rows that
  match both identifiers; removing none is no error.
\<close>

definition remote_delete :: "string \<Rightarrow> string \<Rightarrow> world \<Rightarrow> unit response \<times> world" where
  "remote_delete i u w =
     (case fate w of
        NoFault \<Rightarrow>
          (Data (),
           log (Delete i u)
             (w\<lparr>table := filter (\<lambda>r. \<not> (row_id r = i \<and> user_id r = u)) (table w)\<rparr>))
      | ErrorReply \<Rightarrow> (Error, log (Delete i u) w)
      | Rejects \<Rightarrow> (Thrown, log (Delete i u) w))"

section \<open>The note store\<close>

text \<open>
  Each method of \<^verbatim>\<open>NoteManager\<close> is a function from the world before the call to its
  result and the world after it; a call runs to its end before the next event is handled.
\<close>

text \<open>
  \<^verbatim>\<open>'note_' + Date.now() + '_' + Math.random().toString(36).substr(2, 9)\<close>: the
  random part is the next string of the world's supply.
\<close>

definition generateId :: "world \<Rightarrow> string \<times> world" where
  "generateId w =
     (''note_'' @ decimal (clock w) @ ''_'' @ random w (drawn w),
      w\<lparr>drawn := Suc (drawn w)\<rparr>)"

text \<open>
  \<^verbatim>\<open>saveNotesToStorage\<close>: when \<^verbatim>\<open>setItem\<close> throws (the storage is full or disabled) the
  method logs a warning and writes nothing.
\<close>

definition saveNotesToStorage :: "world \<Rightarrow> world" where
  "saveNotesToStorage w =
     (if ls_writable w
      then w\<lparr>ls_notes := Some (noteList w),
             ls_active_id := Some (case activeNoteId w of None \<Rightarrow> [] | Some i \<Rightarrow> i)\<rparr>
      else w)"

definition createNoteInStorage :: "string \<Rightarrow> string \<Rightarrow> world \<Rightarrow> Note \<times> world" where
  "createNoteInStorage t c w =
     (let (i, w1) = generateId w;
          n = \<lparr>note_id = i, title = t, content = c,
               createdAt = clock w1, updatedAt = clock w1\<rparr>;
          w2 = w1\<lparr>noteList := n # noteList w1, activeNoteId := Some (note_id n)\<rparr>
      in (n, saveNotesToStorage w2))"

definition note_of_row :: "row \<Rightarrow> Note" where
  "note_of_row r =
     \<lparr>note_id = row_id r, title = row_title r, content = row_content r,
      createdAt = created_at r, updatedAt = updated_at r\<rparr>"

text \<open>
  With no user, reading \<^verbatim>\<open>user.id\<close> inside the \<^verbatim>\<open>try\<close> block throws before a request is
  sent, and the \<^verbatim>\<open>catch\<close> block runs.
\<close>

definition createNoteInDatabase :: "string \<Rightarrow> string \<Rightarrow> world \<Rightarrow> Note \<times> world" where
  "createNoteInDatabase t c w =
     (case auth w of
        None \<Rightarrow> createNoteInStorage t c w
      | Some u \<Rightarrow>
          (case remote_insert (uid u) t c w of
             (Data r, w1) \<Rightarrow>
               (let n = note_of_row r;
                    w2 = w1\<lparr>noteList := n # noteList w1, activeNoteId := Some (note_id n)\<rparr>
                in (n, saveNotesToStorage w2))
           | (Error, w1) \<Rightarrow> createNoteInStorage t c w1
           | (Thrown, w1) \<Rightarrow> createNoteInStorage t c w1))"

text \<open>
  The title and the content are given; a call without them passes \<^verbatim>\<open>'Untitled Note'\<close>
  and the empty string.
\<close>

definition createNote :: "string \<Rightarrow> string \<Rightarrow> world \<Rightarrow> Note \<times> world" where
  "createNote t c w =
     (if useDatabase w \<and> auth w \<noteq> None then createNoteInDatabase t c w
      else createNoteInStorage t c w)"

definition getNoteById :: "string \<Rightarrow> world \<Rightarrow> Note option" where
  "getNoteById i w = find (\<lambda>n. note_id n = i) (noteList w)"

text \<open>\<^verbatim>\<open>{...note, ...updates, updatedAt: now}\<close>\<close>

definition merge :: "Note \<Rightarrow> updates \<Rightarrow> timestamp \<Rightarrow> Note" where
  "merge n upd ts =
     n\<lparr>title := (case new_title upd of None \<Rightarrow> title n | Some t \<Rightarrow> t),
       content := (case new_content upd of None \<Rightarrow> content n | Some c \<Rightarrow> c),
       updatedAt := ts\<rparr>"

definition updateNoteInStorage :: "string \<Rightarrow> updates \<Rightarrow> world \<Rightarrow> Note option \<times> world" where
  "updateNoteInStorage i upd w =
     (case findIndex (\<lambda>n. note_id n = i) (noteList w) of
        Some k \<Rightarrow>
          (let n = merge (noteList w ! k) upd (clock w);
               w1 = w\<lparr>noteList := (noteList w)[k := n]\<rparr>
           in (Some n, saveNotesToStorage w1))
      | None \<Rightarrow> (None, w))"

definition updateNoteInDatabase :: "string \<Rightarrow> updates \<Rightarrow> world \<Rightarrow> Note option \<times> world" where
  "updateNoteInDatabase i upd w =
     (case auth w of
        None \<Rightarrow> updateNoteInStorage i upd w
      | Some u \<Rightarrow>
          (case remote_update i (uid u) upd (clock w) w of
             (Data r, w1) \<Rightarrow>
               (case findIndex (\<lambda>n. note_id n = i) (noteList w1) of
                  Some k \<Rightarrow>
                    (let n = note_of_row r;
                         w2 = w1\<lparr>noteList := (noteList w1)[k := n]\<rparr>
                     in (Some n, saveNotesToStorage w2))
                | None \<Rightarrow> (None, w1))
           | (Error, w1) \<Rightarrow> updateNoteInStorage i upd w1
           | (Thrown, w1) \<Rightarrow> updateNoteInStorage i upd w1))"

definition updateNote :: "string \<Rightarrow> updates \<Rightarrow> world \<Rightarrow> Note option \<times> world" where
  "updateNote i upd w =
     (if useDatabase w \<and> auth w \<noteq> None then updateNoteInDatabase i upd w
      else updateNoteInStorage i upd w)"

definition extractFirstLineAsTitle :: "string \<Rightarrow> string" where
  "extractFirstLineAsTitle c =
     (if c = [] then []
      else
        let plainText = trim (stripTags c)
        in if plainText = [] then []
           else
             let firstLine = trim (hd (split_lines plainText))
             in if firstLine \<noteq> [] then firstLine else ''Untitled Note'')"

definition titleFromContent :: "string \<Rightarrow> string" where
  "titleFromContent c =
     (let firstLine = extractFirstLineAsTitle c
      in if firstLine \<noteq> []
         then take 50 firstLine @ (if length firstLine > 50 then ''...'' else [])
         else ''Untitled Note'')"

text \<open>
  \<^verbatim>\<open>updateNoteTitle\<close> awaits \<^verbatim>\<open>updateNote\<close> and drops its result; \<open>titleFromContent\<close> is
  the expression bound to \<^verbatim>\<open>title\<close> in its body.
\<close>

definition updateNoteTitle :: "string \<Rightarrow> string \<Rightarrow> world \<Rightarrow> world" where
  "updateNoteTitle i c w =
     snd (updateNote i \<lparr>new_title = Some (titleFromContent c), new_content = Some c\<rparr> w)"

datatype error = NotAuthenticated | DeleteFailed

text \<open>
  \<^verbatim>\<open>deleteNote\<close> throws \<^verbatim>\<open>'User must be authenticated to delete notes'\<close>
  (\<open>NotAuthenticated\<close>) before anything else when there is no user, and
  \<^verbatim>\<open>'Failed to delete note'\<close> (\<open>DeleteFailed\<close>) when the request fails.
\<close>

definition deleteNote :: "string \<Rightarrow> world \<Rightarrow> (error + bool) \<times> world" where
  "deleteNote i w =
     (case auth w of
        None \<Rightarrow> (Inl NotAuthenticated, w)
      | Some u \<Rightarrow>
          (case remote_delete i (uid u) w of
             (Data _, w1) \<Rightarrow>
               (case findIndex (\<lambda>n. note_id n = i) (noteList w1) of
                  Some k \<Rightarrow>
                    (let ns = take k (noteList w1) @ drop (Suc k) (noteList w1);
                         a = (if activeNoteId w1 = Some i
                              then (if length ns > 0 then Some (note_id (ns ! 0)) else None)
                              else activeNoteId w1)
                     in (Inr True, w1\<lparr>noteList := ns, activeNoteId := a\<rparr>))
                | None \<Rightarrow> (Inr False, w1))
           | (Error, w1) \<Rightarrow> (Inl DeleteFailed, w1)
           | (Thrown, w1) \<Rightarrow> (Inl DeleteFailed, w1)))"

definition setActiveNote :: "string \<Rightarrow> world \<Rightarrow> Note option \<times> world" where
  "setActiveNote i w =
     (case getNoteById i w of
        Some n \<Rightarrow> (Some n, w\<lparr>activeNoteId := Some i\<rparr>)
      | None \<Rightarrow> (None, w))"

text \<open>
  The loop of \<^verbatim>\<open>migrateToDatabase\<close>: one insert per note; the answer is not read and a
  rejected insert is caught inside the loop.
\<close>

fun migrate_each :: "string \<Rightarrow> Note list \<Rightarrow> world \<Rightarrow> world" where
  "migrate_each u [] w = w"
| "migrate_each u (n # ns) w =
     migrate_each u ns (snd (remote_insert u (title n) (content n) w))"

text \<open>
  The answer of the query is read as \<^verbatim>\<open>existingNotes && existingNotes.length > 0\<close>: an
  answer without data lets the migration go on, a rejected query ends it.
\<close>

definition migrateToDatabase :: "world \<Rightarrow> world" where
  "migrateToDatabase w =
     (case auth w of
        None \<Rightarrow> w
      | Some u \<Rightarrow>
          if length (noteList w) = 0 then w
          else
            (case remote_select (uid u) w of
               (Data existingNotes, w1) \<Rightarrow>
                 if length existingNotes > 0 then w1
                 else migrate_each (uid u) (noteList w1) w1
             | (Error, w1) \<Rightarrow> migrate_each (uid u) (noteList w1) w1
             | (Thrown, w1) \<Rightarrow> w1))"

subsection \<open>Export\<close>

definition sanitizeFilename :: "string \<Rightarrow> string" where
  "sanitizeFilename filename =
     toLowerCase (map (\<lambda>c. if isAlnum c then c else CHR ''_'') filename)"

record export_data =
  export_title :: string
  export_content :: string
  export_filename :: string

definition exportNoteAsText :: "dom \<Rightarrow> string \<Rightarrow> world \<Rightarrow> export_data option" where
  "exportNoteAsText d i w =
     (case getNoteById i w of
        None \<Rightarrow> None
      | Some n \<Rightarrow>
          Some \<lparr>export_title = title n,
                export_content = plainTextOf d (content n),
                export_filename = sanitizeFilename (title n) @ ''.txt''\<rparr>)"

subsection \<open>Auto-save and the timer table\<close>

text \<open>
  The browser's timers: \<^verbatim>\<open>setTimeout\<close> returns a fresh positive handle and files the
  callback under it, \<^verbatim>\<open>clearTimeout\<close> removes the timer with the handle given, if there
  is one.
\<close>

definition setTimeout :: "string \<Rightarrow> string \<Rightarrow> nat \<Rightarrow> world \<Rightarrow> nat \<times> world" where
  "setTimeout i c ms w =
     (let h = Suc (handles w)
      in (h, w\<lparr>handles := h,
               timers := timers w @ [\<lparr>handle = h, due = clock w + ms,
                                      cb_id = i, cb_content = c\<rparr>]\<rparr>))"

definition clearTimeout :: "nat \<Rightarrow> world \<Rightarrow> world" where
  "clearTimeout h w = w\<lparr>timers := filter (\<lambda>t. handle t \<noteq> h) (timers w)\<rparr>"

text \<open>
  \<^verbatim>\<open>if (this.autoSaveTimeout)\<close> holds for a handle that is set and not zero. The default of
  \<^verbatim>\<open>debounceMs\<close> is 2000.
\<close>

definition autoSaveNote :: "string \<Rightarrow> string \<Rightarrow> nat \<Rightarrow> world \<Rightarrow> world" where
  "autoSaveNote i c debounceMs w =
     (if auth w = None then w
      else
        let w1 = (case autoSaveTimeout w of
                    None \<Rightarrow> w
                  | Some h \<Rightarrow> if h \<noteq> 0 then clearTimeout h w else w);
            (h, w2) = setTimeout i c debounceMs w1
        in w2\<lparr>autoSaveTimeout := Some h\<rparr>)"

text \<open>The callback that \<^verbatim>\<open>autoSaveNote\<close> schedules.\<close>

definition run_timer :: "timer \<Rightarrow> world \<Rightarrow> world" where
  "run_timer t w = updateNoteTitle (cb_id t) (cb_content t) w"

text \<open>
  Time passes: the clock moves on by \<open>ms\<close> and the timers that are due by then leave the
  table and run, the earliest first and, among equals, in the order they were set.
\<close>

definition elapse :: "nat \<Rightarrow> world \<Rightarrow> world" where
  "elapse ms w =
     (let now = clock w + ms;
          ready = filter (\<lambda>t. due t \<le> now) (timers w);
          w1 = w\<lparr>clock := now, timers := filter (\<lambda>t. \<not> due t \<le> now) (timers w)\<rparr>
      in fold run_timer (sort_key due ready) w1)"

section \<open>The editor's undo history\<close>

text \<open>
  The fields of \<^verbatim>\<open>Editor\<close> that the history reads and writes. \<open>innerHTML\<close> is the
  markup of the editing element; a stack grows at the end of its list (\<^verbatim>\<open>push\<close>,
  \<^verbatim>\<open>pop\<close>) and \<^verbatim>\<open>shift\<close> takes the first element away.
\<close>

record editor =
  innerHTML :: string
  undoStack :: "string list"
  redoStack :: "string list"
  maxUndoLevels :: nat
  lastSavedState :: string

definition getContent :: "editor \<Rightarrow> string" where
  "getContent e = innerHTML e"

definition saveState :: "editor \<Rightarrow> editor" where
  "saveState e =
     (let currentState = getContent e
      in if currentState = lastSavedState e then e
         else
           let pushed = undoStack e @ [lastSavedState e];
               limited = (if length pushed > maxUndoLevels e then tl pushed else pushed)
           in e\<lparr>undoStack := limited, redoStack := [], lastSavedState := currentState\<rparr>)"

text \<open>
  Assigning to \<^verbatim>\<open>innerHTML\<close> parses the markup, and reading it serialises the result:
  \<open>reparse\<close> is what is read back, a parameter of the model.
\<close>

definition setContent :: "(string \<Rightarrow> string) \<Rightarrow> string \<Rightarrow> editor \<Rightarrow> editor" where
  "setContent reparse html e =
     saveState (e\<lparr>innerHTML := reparse (if html = [] then ''<p><br></p>'' else html)\<rparr>)"

definition undo :: "(string \<Rightarrow> string) \<Rightarrow> editor \<Rightarrow> editor" where
  "undo reparse e =
     (if length (undoStack e) > 0
      then
        let currentState = getContent e;
            previousState = last (undoStack e);
            e1 = e\<lparr>undoStack := butlast (undoStack e)\<rparr>;
            e2 = e1\<lparr>redoStack := redoStack e1 @ [currentState]\<rparr>;
            e3 = setContent reparse previousState e2
        in e3\<lparr>lastSavedState := previousState\<rparr>
      else e)"

definition redo :: "(string \<Rightarrow> string) \<Rightarrow> editor \<Rightarrow> editor" where
  "redo reparse e =
     (if length (redoStack e) > 0
      then
        let nextState = last (redoStack e);
            e1 = e\<lparr>redoStack := butlast (redoStack e)\<rparr>;
            e2 = e1\<lparr>undoStack := undoStack e1 @ [getContent e1]\<rparr>;
            e3 = setContent reparse nextState e2
        in e3\<lparr>lastSavedState := nextState\<rparr>
      else e)"

text \<open>
  The constructor, for an editing element that holds \<open>html\<close>: \<^verbatim>\<open>initializeEditor\<close> saves
  the first state.
\<close>

definition new_Editor :: "string \<Rightarrow> editor" where
  "new_Editor html =
     saveState \<lparr>innerHTML = html, undoStack = [], redoStack = [],
                maxUndoLevels = 50, lastSavedState = []\<rparr>"

text \<open>
  What happens to an editor during its life: the three operations of the history,
  \<^verbatim>\<open>setContent\<close> (called when another note is shown), and the user's typing and
  formatting, which leave some new markup in the element (\<open>Input\<close>).
\<close>

datatype editor_op = SaveState | Undo | Redo | SetContent string | Input string

fun editor_step :: "(string \<Rightarrow> string) \<Rightarrow> editor_op \<Rightarrow> editor \<Rightarrow> editor" where
  "editor_step reparse SaveState e = saveState e"
| "editor_step reparse Undo e = undo reparse e"
| "editor_step reparse Redo e = redo reparse e"
| "editor_step reparse (SetContent html) e = setContent reparse html e"
| "editor_step reparse (Input html) e = e\<lparr>innerHTML := html\<rparr>"

definition editor_run :: "(string \<Rightarrow> string) \<Rightarrow> editor_op list \<Rightarrow> editor \<Rightarrow> editor" where
  "editor_run reparse ops e = fold (editor_step reparse) ops e"

section \<open>The specification's readings\<close>

text \<open>
  The file name as the specification describes it: every run of characters that are not
  letters or digits becomes one underscore, the result is lower-cased and \<^verbatim>\<open>.txt\<close> is
  appended.
\<close>

function replace_runs :: "string \<Rightarrow> string" where
  "replace_runs [] = []"
| "replace_runs (c # cs) =
     (if isAlnum c then c # replace_runs cs
      else CHR ''_'' # replace_runs (dropWhile (\<lambda>x. \<not> isAlnum x) cs))"
  by pat_completeness auto
termination
  by (relation "measure length") (auto simp: length_dropWhile_le less_Suc_eq_le)

definition filename_spec :: "string \<Rightarrow> string" where
  "filename_spec t = toLowerCase (replace_runs t) @ ''.txt''"

text \<open>
  The title as the specification describes it: the first line of the tag-stripped content
  that has text, trimmed; cut to 50 characters and three dots when it is longer;
  \<^verbatim>\<open>Untitled Note\<close> when no line has text.
\<close>

definition first_text_line :: "string \<Rightarrow> string option" where
  "first_text_line c = find (\<lambda>l. l \<noteq> []) (map trim (split_lines (stripTags c)))"

definition title_spec :: "string \<Rightarrow> string" where
  "title_spec c =
     (case first_text_line c of
        None \<Rightarrow> ''Untitled Note''
      | Some l \<Rightarrow> if length l > 50 then take 50 l @ ''...'' else l)"

section \<open>Auxiliary notions\<close>

text \<open>
  The row on which the backend serves an update of the note \<open>i\<close>: the store routes the
  update to the backend, the backend serves the request, and the table has a row with this
  identifier for the user. When there is none, the update is written locally.
\<close>

definition served_row :: "string \<Rightarrow> world \<Rightarrow> row option" where
  "served_row i w =
     (if useDatabase w \<and> fate w = NoFault
      then (case auth w of
              None \<Rightarrow> None
            | Some u \<Rightarrow> find (\<lambda>r. row_id r = i \<and> user_id r = uid u) (table w))
      else None)"

text \<open>
  The store sets timers in \<^verbatim>\<open>autoSaveNote\<close> only and keeps the last handle: a pending
  timer is the one \<open>autoSaveTimeout\<close> names. This holds when the page is loaded, and
  \<open>autoSaveNote\<close> and \<open>elapse\<close> keep it.
\<close>

definition own_timers :: "world \<Rightarrow> bool" where
  "own_timers w =
     (\<forall>t\<in>set (timers w). handle t \<noteq> 0 \<and> autoSaveTimeout w = Some (handle t))"

text \<open>
  Two calls of \<^verbatim>\<open>autoSaveNote\<close> with \<open>gap\<close> milliseconds between them, and the object
  that \<^verbatim>\<open>updateNoteTitle\<close> passes to \<^verbatim>\<open>updateNote\<close> for a content.
\<close>

definition two_calls ::
  "string \<Rightarrow> string \<Rightarrow> nat \<Rightarrow> nat \<Rightarrow> string \<Rightarrow> string \<Rightarrow> nat \<Rightarrow> world \<Rightarrow> world" where
  "two_calls i1 c1 ms1 gap i2 c2 ms2 w =
     autoSaveNote i2 c2 ms2 (elapse gap (autoSaveNote i1 c1 ms1 w))"

definition title_and_content :: "string \<Rightarrow> updates" where
  "title_and_content c = \<lparr>new_title = Some (titleFromContent c), new_content = Some c\<rparr>"

text \<open>The invariant of the editor's history: both stacks together hold at most 50 states.\<close>

definition history_ok :: "editor \<Rightarrow> bool" where
  "history_ok e =
     (maxUndoLevels e = 50 \<and> length (undoStack e) + length (redoStack e) \<le> 50)"

section \<open>Concrete inputs\<close>

text \<open>A document object model that strips tags the way the store's own regular expression does.\<close>

definition tag_dom :: dom where
  "tag_dom = \<lparr>textContent = stripTags, innerText = stripTags\<rparr>"

definition mk_note :: "string \<Rightarrow> string \<Rightarrow> string \<Rightarrow> Note" where
  "mk_note i t c = \<lparr>note_id = i, title = t, content = c, createdAt = 0, updatedAt = 0\<rparr>"

definition mk_row :: "string \<Rightarrow> string \<Rightarrow> string \<Rightarrow> string \<Rightarrow> row" where
  "mk_row i u t c =
     \<lparr>row_id = i, user_id = u, row_title = t, row_content = c, created_at = 0, updated_at = 0\<rparr>"

definition alice :: user where
  "alice = \<lparr>uid = ''u1'', email = ''alice@example.org''\<rparr>"

text \<open>
  A page with the given user, notes, active note and remote table, at time 1000, with a
  writable local storage that holds nothing yet, no timer and no request sent.
\<close>

definition page ::
  "user option \<Rightarrow> Note list \<Rightarrow> string option \<Rightarrow> row list \<Rightarrow> (nat \<Rightarrow> fault) \<Rightarrow> world" where
  "page u ns a rows fs =
     \<lparr>auth = u, noteList = ns, activeNoteId = a, useDatabase = (u \<noteq> None),
      autoSaveTimeout = None, ls_notes = None, ls_active_id = None, ls_writable = True,
      table = rows, sent = [], faults = fs, row_ids = (\<lambda>k. ''row_'' @ decimal k),
      clock = 1000, random = (\<lambda>k. ''r'' @ decimal k), drawn = 0, handles = 0, timers = []\<rparr>"

definition three_notes :: "Note list" where
  "three_notes = [mk_note ''a'' ''First'' ''<p>one</p>'',
                  mk_note ''b'' ''Second'' ''<p>two</p>'',
                  mk_note ''c'' ''Third'' ''<p>three</p>'']"

definition titled :: "Note list" where
  "titled = [mk_note ''n1'' ''My  Note'' ''<p>Hello <b>world</b></p>'']"

text \<open>A page whose copy of a note is older than the remote row: the title was changed elsewhere.\<close>

definition stale :: world where
  "stale = page (Some alice) [mk_note ''r1'' ''Old title'' ''<p>x</p>''] (Some ''r1'')
             [mk_row ''r1'' ''u1'' ''Renamed elsewhere'' ''<p>x</p>''] (\<lambda>k. NoFault)"

definition content_only :: updates where
  "content_only = \<lparr>new_title = None, new_content = Some ''<p>y</p>''\<rparr>"

text \<open>An editor whose undo stack is full.\<close>

definition full_editor :: editor where
  "full_editor =
     \<lparr>innerHTML = ''<p>new</p>'', undoStack = replicate 50 ''<p>old</p>'',
      redoStack = [''<p>redo</p>''], maxUndoLevels = 50, lastSavedState = ''<p>last</p>''\<rparr>"

text \<open>A backend that rejects its third request, and one that rejects every request.\<close>

definition flaky :: "nat \<Rightarrow> fault" where
  "flaky k = (if k = 2 then Rejects else NoFault)"

definition down :: "nat \<Rightarrow> fault" where
  "down k = Rejects"

text \<open>A backend that answers its first request with an error.\<close>

definition query_error :: "nat \<Rightarrow> fault" where
  "query_error k = (if k = 0 then ErrorReply else NoFault)"

definition kept_row :: row where
  "kept_row = mk_row ''r9'' ''u1'' ''Kept'' ''<p>k</p>''"

definition long_line :: string where
  "long_line = ''<p>0123456789012345678901234567890123456789012345678901234</p>''"

definition shopping :: string where
  "shopping =
     ''<p>  </p>'' @ [CHR 0x0A] @ ''<div> Shopping <b>list</b> </div>'' @ [CHR 0x0A] @
     ''<p>milk</p>''"

text \<open>A signed-in page whose backend is down and whose local storage takes no write.\<close>

definition storage_full :: world where
  "storage_full = (page (Some alice) three_notes (Some ''a'') [] down)\<lparr>ls_writable := False\<rparr>"

text \<open>
  A page with a user whose store still works on the local storage: the application's own
  handler has replaced the store's in \<^verbatim>\<open>onUserChange\<close>, so that a sign-in does not
  switch the store to the backend.
\<close>

definition signed_in_local :: world where
  "signed_in_local =
     (page (Some alice) three_notes (Some ''a'') [] (\<lambda>k. NoFault))\<lparr>useDatabase := False\<rparr>"

section \<open>Theorems\<close>

subsection \<open>Migration on sign-in\<close>

text \<open>
  \<^verbatim>\<open>Auth.setUser\<close> stores the user and then calls \<^verbatim>\<open>handleUserChange\<close>, which runs
  \<open>migrateToDatabase\<close> first: the step starts from a world that has the user and, in
  \<open>noteList\<close>, the notes that were held locally.
\<close>

lemma remote_insert_frame:
  "faults (snd (remote_insert u t c w)) = faults w \<and>
   sent (snd (remote_insert u t c w)) = sent w @ [Insert u t c] \<and>
   noteList (snd (remote_insert u t c w)) = noteList w \<and>
   activeNoteId (snd (remote_insert u t c w)) = activeNoteId w \<and>
   set (table w) \<subseteq> set (table (snd (remote_insert u t c w)))"
  by (cases "fate w") (auto simp: remote_insert_def log_def Let_def)

lemma remote_insert_served:
  "fate w = NoFault \<Longrightarrow>
   \<exists>r\<in>set (table (snd (remote_insert u t c w))).
     user_id r = u \<and> row_title r = t \<and> row_content r = c"
  by (simp add: remote_insert_def log_def Let_def)

lemma migrate_each_frame:
  "faults (migrate_each u ns w) = faults w \<and>
   sent (migrate_each u ns w) = sent w @ map (\<lambda>n. Insert u (title n) (content n)) ns \<and>
   noteList (migrate_each u ns w) = noteList w \<and>
   activeNoteId (migrate_each u ns w) = activeNoteId w \<and>
   set (table w) \<subseteq> set (table (migrate_each u ns w))"
proof (induction ns arbitrary: w)
  case Nil
  show ?case by simp
next
  case (Cons n ns)
  let ?w1 = "snd (remote_insert u (title n) (content n) w)"
  from Cons.IH [of ?w1] remote_insert_frame [of u "title n" "content n" w]
  show ?case by auto
qed

lemma migrate_each_inserted:
  "k < length ns \<Longrightarrow> faults w (length (sent w) + k) = NoFault \<Longrightarrow>
   \<exists>r\<in>set (table (migrate_each u ns w)).
     user_id r = u \<and> row_title r = title (ns ! k) \<and> row_content r = content (ns ! k)"
proof (induction ns arbitrary: w k)
  case Nil
  then show ?case by simp
next
  case (Cons n ns)
  let ?w1 = "snd (remote_insert u (title n) (content n) w)"
  note frame = remote_insert_frame [of u "title n" "content n" w]
  show ?case
  proof (cases k)
    case 0
    with Cons.prems have "fate w = NoFault"
      by (simp add: fate_def)
    then obtain r where "r \<in> set (table ?w1)"
      "user_id r = u \<and> row_title r = title n \<and> row_content r = content n"
      using remote_insert_served by blast
    moreover have "set (table ?w1) \<subseteq> set (table (migrate_each u ns ?w1))"
      using migrate_each_frame by blast
    ultimately show ?thesis
      using 0 by auto
  next
    case (Suc j)
    with Cons.prems frame have "j < length ns" "faults ?w1 (length (sent ?w1) + j) = NoFault"
      by simp_all
    from Cons.IH [OF this] show ?thesis
      using Suc by simp
  qed
qed

lemma remote_select_served:
  "fate w = NoFault \<Longrightarrow>
   remote_select u w = (Data (take 1 (filter (\<lambda>r. user_id r = u) (table w))), log (Select u) w)"
  by (simp add: remote_select_def)

lemma owns_row: "(take 1 (filter p xs) = []) = (\<not> (\<exists>x\<in>set xs. p x))"
  by (auto simp: filter_empty_conv)

text \<open>
  When the query is not answered: a rejected query ends the step, and an answer that is
  an error (no data) lets the inserts go on.
\<close>

lemma migrateToDatabase_query_unanswered:
  assumes "auth w = Some u" and "noteList w \<noteq> []"
  shows "fate w = Rejects \<Longrightarrow> migrateToDatabase w = log (Select (uid u)) w"
    and "fate w = ErrorReply \<Longrightarrow>
         migrateToDatabase w = migrate_each (uid u) (noteList w) (log (Select (uid u)) w)"
  using assms by (simp_all add: migrateToDatabase_def remote_select_def log_def)

text \<open>
  C1, as the code has it. For a signed-in user the migration step leaves the local notes
  alone and sends nothing when no note is held locally. Otherwise it sends the query for
  the user's rows first. When the query is rejected, nothing more is sent and the table is
  unchanged. When the query is answered with data, either nothing more is sent, when the
  user owns a row (then the table is unchanged), or one insert for each local note, in the
  order of the list: no row is removed, and every note whose insert is served has a row of
  the user with its title and content, whatever happened to the inserts before it. A query
  that is answered with an error is left out of this statement.
\<close>

theorem migrateToDatabase_steps:
  assumes "auth w = Some u" and "fate w \<noteq> ErrorReply"
  shows "noteList (migrateToDatabase w) = noteList w \<and>
    (if noteList w = [] then migrateToDatabase w = w
     else if fate w = Rejects
     then table (migrateToDatabase w) = table w \<and>
          sent (migrateToDatabase w) = sent w @ [Select (uid u)]
     else if \<exists>r\<in>set (table w). user_id r = uid u
     then table (migrateToDatabase w) = table w \<and>
          sent (migrateToDatabase w) = sent w @ [Select (uid u)]
     else sent (migrateToDatabase w) =
            sent w @ Select (uid u) #
              map (\<lambda>n. Insert (uid u) (title n) (content n)) (noteList w) \<and>
          set (table w) \<subseteq> set (table (migrateToDatabase w)) \<and>
          (\<forall>k<length (noteList w).
             faults w (Suc (length (sent w)) + k) = NoFault \<longrightarrow>
             (\<exists>r\<in>set (table (migrateToDatabase w)).
                user_id r = uid u \<and> row_title r = title (noteList w ! k) \<and>
                row_content r = content (noteList w ! k))))"
proof (cases "noteList w = []")
  case True
  with assms show ?thesis by (simp add: migrateToDatabase_def)
next
  case False
  let ?w1 = "log (Select (uid u)) w"
  have w1: "noteList ?w1 = noteList w" "table ?w1 = table w" "faults ?w1 = faults w"
    "sent ?w1 = sent w @ [Select (uid u)]"
    by (simp_all add: log_def)
  show ?thesis
  proof (cases "fate w")
    case ErrorReply
    with assms(2) show ?thesis by simp
  next
    case Rejects
    from migrateToDatabase_query_unanswered(1) [OF assms(1) False Rejects]
    show ?thesis
      using False Rejects by (simp add: w1)
  next
    case NoFault
    show ?thesis
    proof (cases "\<exists>r\<in>set (table w). user_id r = uid u")
      case True
      then have "take 1 (filter (\<lambda>r. user_id r = uid u) (table w)) \<noteq> []"
        using owns_row [of "\<lambda>r. user_id r = uid u" "table w"] by blast
      with assms(1) False True NoFault show ?thesis
        by (simp add: migrateToDatabase_def remote_select_served w1)
    next
      case none: False
      then have "take 1 (filter (\<lambda>r. user_id r = uid u) (table w)) = []"
        using owns_row [of "\<lambda>r. user_id r = uid u" "table w"] by blast
      with assms(1) False NoFault
      have run: "migrateToDatabase w = migrate_each (uid u) (noteList w) ?w1"
        by (simp add: migrateToDatabase_def remote_select_served w1)
      note frame = migrate_each_frame [of "uid u" "noteList w" ?w1]
      have each: "\<exists>r\<in>set (table (migrateToDatabase w)).
                    user_id r = uid u \<and> row_title r = title (noteList w ! k) \<and>
                    row_content r = content (noteList w ! k)"
        if "k < length (noteList w)" "faults w (Suc (length (sent w)) + k) = NoFault" for k
        unfolding run
        by (rule migrate_each_inserted) (use that in \<open>simp_all add: w1\<close>)
      show ?thesis
        using False none NoFault frame each by (simp add: run w1)
    qed
  qed
qed

theorem migrateToDatabase_steps_witness:
  "auth (page (Some alice) three_notes (Some ''a'') [] flaky) = Some alice \<and>
   fate (page (Some alice) three_notes (Some ''a'') [] flaky) \<noteq> ErrorReply \<and>
   sent (migrateToDatabase (page (Some alice) three_notes (Some ''a'') [] flaky)) =
     [Select ''u1'', Insert ''u1'' ''First'' ''<p>one</p>'',
      Insert ''u1'' ''Second'' ''<p>two</p>'', Insert ''u1'' ''Third'' ''<p>three</p>''] \<and>
   (\<exists>r\<in>set (table (migrateToDatabase (page (Some alice) three_notes (Some ''a'') [] flaky))).
      user_id r = ''u1'' \<and> row_title r = ''Third'' \<and> row_content r = ''<p>three</p>'') \<and>
   auth (page (Some alice) three_notes (Some ''a'') [kept_row] flaky) = Some alice \<and>
   fate (page (Some alice) three_notes (Some ''a'') [kept_row] flaky) \<noteq> ErrorReply \<and>
   table (migrateToDatabase (page (Some alice) three_notes (Some ''a'') [kept_row] flaky)) =
     [kept_row] \<and>
   sent (migrateToDatabase (page (Some alice) three_notes (Some ''a'') [kept_row] flaky)) =
     [Select ''u1''] \<and>
   auth (page (Some alice) three_notes (Some ''a'') [] down) = Some alice \<and>
   fate (page (Some alice) three_notes (Some ''a'') [] down) \<noteq> ErrorReply \<and>
   table (migrateToDatabase (page (Some alice) three_notes (Some ''a'') [] down)) = [] \<and>
   sent (migrateToDatabase (page (Some alice) three_notes (Some ''a'') [] down)) =
     [Select ''u1'']"
proof -
  let ?w = "page (Some alice) three_notes (Some ''a'') [] flaky"
  let ?v = "page (Some alice) three_notes (Some ''a'') [kept_row] flaky"
  let ?d = "page (Some alice) three_notes (Some ''a'') [] down"
  have h1: "auth ?w = Some alice" and h2: "fate ?w \<noteq> ErrorReply"
    and g1: "auth ?v = Some alice" and g2: "fate ?v \<noteq> ErrorReply"
    and d1: "auth ?d = Some alice" and d2: "fate ?d \<noteq> ErrorReply"
    and f: "fate ?w = NoFault" "fate ?v = NoFault" "fate ?d = Rejects"
    by (simp_all add: page_def fate_def flaky_def down_def)
  have ns: "noteList ?w = three_notes" "noteList ?v = three_notes" "noteList ?d = three_notes"
      "three_notes \<noteq> []"
    and tb: "table ?w = []" "table ?v = [kept_row]" "table ?d = []"
      "user_id kept_row = uid alice"
    and st: "sent ?w = []" "sent ?v = []" "sent ?d = []" "faults ?w = flaky"
    by (simp_all add: page_def three_notes_def kept_row_def mk_row_def alice_def)
  from migrateToDatabase_steps [OF h1 h2]
  have a: "sent (migrateToDatabase ?w) =
             Select (uid alice) # map (\<lambda>n. Insert (uid alice) (title n) (content n)) three_notes"
    and b: "\<forall>k<length three_notes. flaky (Suc k) = NoFault \<longrightarrow>
             (\<exists>r\<in>set (table (migrateToDatabase ?w)).
                user_id r = uid alice \<and> row_title r = title (three_notes ! k) \<and>
                row_content r = content (three_notes ! k))"
    by (simp_all add: ns tb st f)
  have "2 < length three_notes" "flaky (Suc 2) = NoFault"
    by (simp_all add: flaky_def three_notes_def)
  with b have c: "\<exists>r\<in>set (table (migrateToDatabase ?w)).
                user_id r = uid alice \<and> row_title r = title (three_notes ! 2) \<and>
                row_content r = content (three_notes ! 2)"
    by blast
  from migrateToDatabase_steps [OF g1 g2]
  have d: "table (migrateToDatabase ?v) = [kept_row]"
    "sent (migrateToDatabase ?v) = [Select (uid alice)]"
    by (simp_all add: ns tb st f)
  from migrateToDatabase_steps [OF d1 d2]
  have e: "table (migrateToDatabase ?d) = []"
    "sent (migrateToDatabase ?d) = [Select (uid alice)]"
    by (simp_all add: ns tb st f)
  show ?thesis
    using h1 h2 g1 g2 d1 d2 a c d e
    by (simp add: alice_def three_notes_def mk_note_def)
qed

text \<open>
  The query is rejected for a user who owns no row: none of the three local notes is
  inserted.
\<close>

theorem migrateToDatabase_rejected_counterexample:
  "auth (page (Some alice) three_notes (Some ''a'') [] down) = Some alice \<and>
   map title (noteList (page (Some alice) three_notes (Some ''a'') [] down)) =
     [''First'', ''Second'', ''Third''] \<and>
   table (page (Some alice) three_notes (Some ''a'') [] down) = [] \<and>
   sent (migrateToDatabase (page (Some alice) three_notes (Some ''a'') [] down)) =
     [Select ''u1''] \<and>
   table (migrateToDatabase (page (Some alice) three_notes (Some ''a'') [] down)) = []"
  by (simp add: migrateToDatabase_def remote_select_def fate_def log_def page_def down_def
      three_notes_def mk_note_def alice_def)

text \<open>
  The query is answered with an error for a user who owns a row. The step reads the data
  of the answer and not its error, unlike the other requests of the store, and inserts
  the three local notes beside the row.
\<close>

lemma migrateToDatabase_error_reply_example:
  "user_id kept_row = uid alice \<and>
   table (page (Some alice) three_notes (Some ''a'') [kept_row] query_error) = [kept_row] \<and>
   sent (migrateToDatabase (page (Some alice) three_notes (Some ''a'') [kept_row] query_error)) =
     [Select ''u1'', Insert ''u1'' ''First'' ''<p>one</p>'',
      Insert ''u1'' ''Second'' ''<p>two</p>'', Insert ''u1'' ''Third'' ''<p>three</p>''] \<and>
   map row_title
     (table (migrateToDatabase
        (page (Some alice) three_notes (Some ''a'') [kept_row] query_error))) =
     [''Kept'', ''First'', ''Second'', ''Third'']"
  by (simp add: migrateToDatabase_def remote_select_def remote_insert_def fate_def log_def
      page_def query_error_def three_notes_def mk_note_def mk_row_def kept_row_def alice_def
      Let_def)

subsection \<open>Deleting a note\<close>

text \<open>
  C2. Without a user, \<open>deleteNote\<close> ends with the error \<open>NotAuthenticated\<close> and leaves
  the whole world as it was: the list of notes, the active note, and everything else.
\<close>

theorem deleteNote_anonymous:
  "auth w = None \<Longrightarrow> deleteNote i w = (Inl NotAuthenticated, w)"
  by (simp add: deleteNote_def)

theorem deleteNote_anonymous_witness:
  "auth (page None three_notes (Some ''a'') [] (\<lambda>k. NoFault)) = None \<and>
   deleteNote ''a'' (page None three_notes (Some ''a'') [] (\<lambda>k. NoFault)) =
     (Inl NotAuthenticated, page None three_notes (Some ''a'') [] (\<lambda>k. NoFault))"
proof -
  have h: "auth (page None three_notes (Some ''a'') [] (\<lambda>k. NoFault)) = None"
    by (simp add: page_def)
  show ?thesis using h deleteNote_anonymous [OF h] by simp
qed

text \<open>The world after a delete that the backend serves, for a note that is in the list.\<close>

lemma deleteNote_served:
  assumes "auth w = Some u" and "fate w = NoFault"
    and "findIndex (\<lambda>n. note_id n = i) (noteList w) = Some k"
    and "ns = take k (noteList w) @ drop (Suc k) (noteList w)"
  shows "deleteNote i w =
           (Inr True,
            (log (Delete i (uid u))
               (w\<lparr>table := filter (\<lambda>r. \<not> (row_id r = i \<and> user_id r = uid u)) (table w)\<rparr>))
            \<lparr>noteList := ns,
             activeNoteId :=
               (if activeNoteId w = Some i
                then (if length ns > 0 then Some (note_id (ns ! 0)) else None)
                else activeNoteId w)\<rparr>)"
  using assms by (simp add: deleteNote_def remote_delete_def log_def Let_def)

text \<open>
  C3, as the code has it. When a signed-in user deletes a note of the list and the backend
  serves the request, the note at the first position with that identifier leaves the list.
  If it was the active note, the first note of the remaining list becomes active, and no
  note is active when nothing remains; if it was not, the active note stays. The note that
  becomes active is the one after the deleted note when the deleted note stood first.
\<close>

theorem deleteNote_active_pointer:
  assumes "auth w = Some u" and "fate w = NoFault"
    and "findIndex (\<lambda>n. note_id n = i) (noteList w) = Some k"
  shows "fst (deleteNote i w) = Inr True \<and>
         noteList (snd (deleteNote i w)) = take k (noteList w) @ drop (Suc k) (noteList w) \<and>
         activeNoteId (snd (deleteNote i w)) =
           (if activeNoteId w = Some i
            then (case take k (noteList w) @ drop (Suc k) (noteList w) of
                    [] \<Rightarrow> None
                  | n # rest \<Rightarrow> Some (note_id n))
            else activeNoteId w) \<and>
         (k = 0 \<and> activeNoteId w = Some i \<and> 1 < length (noteList w) \<longrightarrow>
            activeNoteId (snd (deleteNote i w)) = Some (note_id (noteList w ! 1)))"
proof -
  define ns where "ns = take k (noteList w) @ drop (Suc k) (noteList w)"
  note served = deleteNote_served [OF assms ns_def]
  have first: "ns \<noteq> [] \<and> ns ! 0 = noteList w ! 1"
    if "k = 0" "1 < length (noteList w)"
    using that by (simp add: ns_def)
  have pointer: "activeNoteId (snd (deleteNote i w)) =
           (if activeNoteId w = Some i
            then (case ns of [] \<Rightarrow> None | n # rest \<Rightarrow> Some (note_id n))
            else activeNoteId w)"
    unfolding served by (cases ns) (simp_all add: log_def)
  have following: "activeNoteId (snd (deleteNote i w)) = Some (note_id (noteList w ! 1))"
    if "k = 0" "activeNoteId w = Some i" "1 < length (noteList w)"
    using first [OF that(1) that(3)] that(2) unfolding served by (simp add: log_def)
  have "fst (deleteNote i w) = Inr True" "noteList (snd (deleteNote i w)) = ns"
    unfolding served by (simp_all add: log_def)
  with pointer following show ?thesis
    unfolding ns_def [symmetric] by blast
qed

theorem deleteNote_active_pointer_witness:
  "auth (page (Some alice) three_notes (Some ''b'') [] (\<lambda>k. NoFault)) = Some alice \<and>
   fate (page (Some alice) three_notes (Some ''b'') [] (\<lambda>k. NoFault)) = NoFault \<and>
   findIndex (\<lambda>n. note_id n = ''b'')
     (noteList (page (Some alice) three_notes (Some ''b'') [] (\<lambda>k. NoFault))) = Some 1 \<and>
   map note_id
     (noteList (snd (deleteNote ''b''
        (page (Some alice) three_notes (Some ''b'') [] (\<lambda>k. NoFault))))) = [''a'', ''c''] \<and>
   activeNoteId (snd (deleteNote ''b''
     (page (Some alice) three_notes (Some ''b'') [] (\<lambda>k. NoFault)))) = Some ''a''"
proof -
  let ?w = "page (Some alice) three_notes (Some ''b'') [] (\<lambda>k. NoFault)"
  have h1: "auth ?w = Some alice"
    by (simp add: page_def)
  have h2: "fate ?w = NoFault"
    by (simp add: page_def fate_def)
  have h3: "findIndex (\<lambda>n. note_id n = ''b'') (noteList ?w) = Some 1"
    by (simp add: page_def three_notes_def mk_note_def)
  show ?thesis
    using h1 h2 h3 deleteNote_active_pointer [OF h1 h2 h3]
    by (simp add: page_def three_notes_def mk_note_def)
qed

text \<open>
  With the notes a, b, c and b active, deleting b makes a active: the note before the
  deleted one, not c, the note after it.
\<close>

theorem deleteNote_next_counterexample:
  "map note_id three_notes = [''a'', ''b'', ''c''] \<and>
   fst (deleteNote ''b'' (page (Some alice) three_notes (Some ''b'') [] (\<lambda>k. NoFault))) =
     Inr True \<and>
   activeNoteId (snd (deleteNote ''b''
     (page (Some alice) three_notes (Some ''b'') [] (\<lambda>k. NoFault)))) \<noteq> Some ''c''"
  by (simp add: deleteNote_def remote_delete_def log_def fate_def page_def three_notes_def
      mk_note_def Let_def)

subsection \<open>Statistics of a note\<close>

text \<open>
  C4. For the content \<^verbatim>\<open><p>Hello world. Bye!</p>\<close>, whose text the browser reads as
  \<^verbatim>\<open>Hello world. Bye!\<close>, \<open>getNoteStats\<close> returns 3 words, 17 characters (the length of
  that text) and 2 sentences.
\<close>

theorem getNoteStats_example:
  assumes "textContent d ''<p>Hello world. Bye!</p>'' = ''Hello world. Bye!''"
  shows "getNoteStats d ''<p>Hello world. Bye!</p>'' =
           \<lparr>words = 3, characters = 17, sentences = 2\<rparr>"
  using assms
  by (simp add: getNoteStats_def plainTextOf_def trim_def isWhiteSpace_def
      isTerminator_def Let_def)

theorem getNoteStats_example_witness:
  "textContent tag_dom ''<p>Hello world. Bye!</p>'' = ''Hello world. Bye!'' \<and>
   getNoteStats tag_dom ''<p>Hello world. Bye!</p>'' =
     \<lparr>words = 3, characters = 17, sentences = 2\<rparr>"
proof -
  have h: "textContent tag_dom ''<p>Hello world. Bye!</p>'' = ''Hello world. Bye!''"
    by (simp add: tag_dom_def)
  show ?thesis using h getNoteStats_example [OF h] by simp
qed

text \<open>The stated result, with 15 characters, is not what the function returns.\<close>

theorem getNoteStats_characters_counterexample:
  "getNoteStats tag_dom ''<p>Hello world. Bye!</p>'' \<noteq>
     \<lparr>words = 3, characters = 15, sentences = 2\<rparr>"
  by (simp add: tag_dom_def getNoteStats_def plainTextOf_def Let_def)

subsection \<open>The title of a note\<close>

lemma isWhiteSpace_LF: "isWhiteSpace (CHR 0x0A)"
  by (simp add: isWhiteSpace_def)

lemma split_lines_not_Nil: "split_lines s \<noteq> []"
  by (induction s) (auto split: list.splits)

lemma hd_split_lines: "hd (split_lines s) = takeWhile (\<lambda>c. c \<noteq> CHR 0x0A) s"
  by (induction s) (auto split: list.splits simp: split_lines_not_Nil)

lemma trim_Nil_iff: "trim s = [] \<longleftrightarrow> (\<forall>c\<in>set s. isWhiteSpace c)"
proof
  assume "trim s = []"
  then have "dropWhile isWhiteSpace (rev (dropWhile isWhiteSpace s)) = []"
    by (simp add: trim_def)
  then have all: "\<forall>c\<in>set (dropWhile isWhiteSpace s). isWhiteSpace c"
    by simp
  have "dropWhile isWhiteSpace s = []"
  proof (rule ccontr)
    assume ne: "dropWhile isWhiteSpace s \<noteq> []"
    then have "\<not> isWhiteSpace (hd (dropWhile isWhiteSpace s))"
      by (rule hd_dropWhile)
    moreover from ne have "hd (dropWhile isWhiteSpace s) \<in> set (dropWhile isWhiteSpace s)"
      by simp
    ultimately show False using all by blast
  qed
  then show "\<forall>c\<in>set s. isWhiteSpace c"
    by simp
next
  assume "\<forall>c\<in>set s. isWhiteSpace c"
  then have "dropWhile isWhiteSpace s = []"
    by simp
  then show "trim s = []"
    by (simp only: trim_def rev.simps dropWhile.simps)
qed

lemma trim_leading: "isWhiteSpace c \<Longrightarrow> trim (c # s) = trim s"
  by (simp add: trim_def)

lemma trim_trailing:
  assumes "\<forall>c\<in>set b. isWhiteSpace c"
  shows "trim (a @ b) = trim a"
proof (cases "\<forall>c\<in>set a. isWhiteSpace c")
  case True
  with assms have "trim (a @ b) = []" "trim a = []"
    by (auto simp: trim_Nil_iff)
  then show ?thesis by simp
next
  case False
  then have "dropWhile isWhiteSpace (a @ b) = dropWhile isWhiteSpace a @ b"
    by auto
  moreover have "dropWhile isWhiteSpace (rev b @ x) = dropWhile isWhiteSpace x" for x
    by (rule dropWhile_append2) (use assms in auto)
  ultimately show ?thesis
    by (simp add: trim_def)
qed

text \<open>Leading white space, line feeds included, does not change the first line that has text.\<close>

lemma first_line_skip:
  "find (\<lambda>l. l \<noteq> []) (map trim (split_lines s)) =
   find (\<lambda>l. l \<noteq> []) (map trim (split_lines (dropWhile isWhiteSpace s)))"
proof (induction s)
  case Nil
  show ?case by simp
next
  case (Cons c s)
  show ?case
  proof (cases "isWhiteSpace c")
    case False
    then show ?thesis by simp
  next
    case True
    obtain l ls where sp: "split_lines s = l # ls"
      using split_lines_not_Nil by (cases "split_lines s") auto
    show ?thesis
    proof (cases "c = CHR 0x0A")
      case lf: True
      then have "find (\<lambda>l. l \<noteq> []) (map trim (split_lines (c # s))) =
                 find (\<lambda>l. l \<noteq> []) (map trim (split_lines s))"
        by (simp add: trim_def)
      with Cons.IH True show ?thesis by simp
    next
      case nolf: False
      then have "map trim (split_lines (c # s)) = map trim (split_lines s)"
        using True sp by (simp add: trim_leading)
      with Cons.IH True show ?thesis by simp
    qed
  qed
qed

text \<open>A text that starts with a character that is not white space has its text on the first line.\<close>

lemma first_line_found:
  assumes "t \<noteq> []" and "\<not> isWhiteSpace (hd t)"
  shows "find (\<lambda>l. l \<noteq> []) (map trim (split_lines t)) = Some (trim (hd (split_lines t)))"
    and "trim (hd (split_lines t)) \<noteq> []"
proof -
  from assms obtain c cs where t: "t = c # cs" and c: "\<not> isWhiteSpace c"
    by (cases t) auto
  from c have "c \<noteq> CHR 0x0A"
    using isWhiteSpace_LF by auto
  then have "c \<in> set (hd (split_lines t))"
    by (simp only: hd_split_lines t) simp
  with c show ne: "trim (hd (split_lines t)) \<noteq> []"
    by (auto simp: trim_Nil_iff)
  obtain l ls where sp: "split_lines t = l # ls"
    using split_lines_not_Nil by (cases "split_lines t") auto
  with ne show "find (\<lambda>l. l \<noteq> []) (map trim (split_lines t)) = Some (trim (hd (split_lines t)))"
    by simp
qed

text \<open>Cutting trailing white space off a text does not change its first line, once trimmed.\<close>

lemma first_line_trimEnd:
  "trim (hd (split_lines (rev (dropWhile isWhiteSpace (rev t))))) = trim (hd (split_lines t))"
proof -
  let ?a = "rev (dropWhile isWhiteSpace (rev t))"
  let ?b = "rev (takeWhile isWhiteSpace (rev t))"
  have t: "t = ?a @ ?b"
    by (metis rev_append rev_rev_ident takeWhile_dropWhile_id)
  have b: "\<forall>c\<in>set ?b. isWhiteSpace c"
    by (auto dest: set_takeWhileD)
  have "trim (takeWhile (\<lambda>c. c \<noteq> CHR 0x0A) (?a @ ?b)) = trim (takeWhile (\<lambda>c. c \<noteq> CHR 0x0A) ?a)"
  proof (cases "\<forall>c\<in>set ?a. c \<noteq> CHR 0x0A")
    case True
    then have "takeWhile (\<lambda>c. c \<noteq> CHR 0x0A) (?a @ ?b) = ?a @ takeWhile (\<lambda>c. c \<noteq> CHR 0x0A) ?b"
      and "takeWhile (\<lambda>c. c \<noteq> CHR 0x0A) ?a = ?a"
      by (blast intro: takeWhile_append2, simp only: takeWhile_eq_all_conv)
    moreover have "\<forall>c\<in>set (takeWhile (\<lambda>c. c \<noteq> CHR 0x0A) ?b). isWhiteSpace c"
      using b by (auto dest: set_takeWhileD)
    ultimately show ?thesis
      by (simp only: trim_trailing)
  next
    case False
    then obtain x where "x \<in> set ?a" "\<not> x \<noteq> CHR 0x0A" by blast
    then have "takeWhile (\<lambda>c. c \<noteq> CHR 0x0A) (?a @ ?b) = takeWhile (\<lambda>c. c \<noteq> CHR 0x0A) ?a"
      by (rule takeWhile_append1)
    then show ?thesis
      by (simp only:)
  qed
  with t show ?thesis
    by (simp only: hd_split_lines) 
qed

lemma first_text_line_eq:
  "find (\<lambda>l. l \<noteq> []) (map trim (split_lines s)) =
     (if trim s = [] then None else Some (trim (hd (split_lines (trim s)))))"
  and first_line_not_Nil: "trim s \<noteq> [] \<Longrightarrow> trim (hd (split_lines (trim s))) \<noteq> []"
proof -
  let ?t = "dropWhile isWhiteSpace s"
  have tr: "trim s = rev (dropWhile isWhiteSpace (rev ?t))"
    by (simp add: trim_def)
  have eq: "trim (hd (split_lines (trim s))) = trim (hd (split_lines ?t))"
    unfolding tr by (rule first_line_trimEnd)
  have found: "find (\<lambda>l. l \<noteq> []) (map trim (split_lines ?t)) = Some (trim (hd (split_lines ?t)))
       \<and> trim (hd (split_lines ?t)) \<noteq> []" if "trim s \<noteq> []"
  proof -
    have "?t = [] \<Longrightarrow> trim s = []"
      by (simp only: trim_def rev.simps dropWhile.simps)
    with that have ne: "?t \<noteq> []"
      by blast
    then have "\<not> isWhiteSpace (hd ?t)"
      by (rule hd_dropWhile)
    with ne show ?thesis
      using first_line_found by blast
  qed
  show "trim s \<noteq> [] \<Longrightarrow> trim (hd (split_lines (trim s))) \<noteq> []"
    using found eq by simp
  show "find (\<lambda>l. l \<noteq> []) (map trim (split_lines s)) =
     (if trim s = [] then None else Some (trim (hd (split_lines (trim s)))))"
  proof (cases "trim s = []")
    case True
    then have "?t = []"
      by (simp add: trim_Nil_iff)
    then have "find (\<lambda>l. l \<noteq> []) (map trim (split_lines ?t)) =
               find (\<lambda>l. l \<noteq> []) (map trim (split_lines []))"
      by (simp only:)
    also have "\<dots> = None"
      by (simp add: trim_def)
    finally have "find (\<lambda>l. l \<noteq> []) (map trim (split_lines s)) = None"
      by (simp only: first_line_skip [of s])
    with True show ?thesis
      by simp
  next
    case False
    with found eq show ?thesis
      by (simp add: first_line_skip [of s])
  qed
qed

lemma titleFromContent_eq: "titleFromContent c = title_spec c"
proof (cases "c = []")
  case True
  then show ?thesis
    by (simp add: titleFromContent_def extractFirstLineAsTitle_def title_spec_def
        first_text_line_def trim_def)
next
  case False
  show ?thesis
  proof (cases "trim (stripTags c) = []")
    case True
    with False show ?thesis
      by (simp add: titleFromContent_def extractFirstLineAsTitle_def title_spec_def
          first_text_line_def first_text_line_eq)
  next
    case ne: False
    then have "trim (hd (split_lines (trim (stripTags c)))) \<noteq> []"
      by (rule first_line_not_Nil)
    with False ne show ?thesis
      by (simp add: titleFromContent_def extractFirstLineAsTitle_def title_spec_def
          first_text_line_def first_text_line_eq Let_def)
  qed
qed

text \<open>
  C5. The title that \<open>updateNoteTitle\<close> derives is the one the specification describes:
  the first line of the tag-stripped content that has text, without the white space around
  it, cut to its first 50 characters and three dots when it is longer than that, and
  \<^verbatim>\<open>Untitled Note\<close> when the content is empty or has only white space left after the
  tags are stripped. This title and the content are what \<open>updateNote\<close> is called with.
\<close>

theorem updateNoteTitle_title:
  "titleFromContent c = title_spec c \<and>
   updateNoteTitle i c w =
     snd (updateNote i \<lparr>new_title = Some (title_spec c), new_content = Some c\<rparr> w) \<and>
   ((\<forall>ch\<in>set (stripTags c). isWhiteSpace ch) \<longrightarrow> title_spec c = ''Untitled Note'')"
proof -
  have "title_spec c = ''Untitled Note''" if "\<forall>ch\<in>set (stripTags c). isWhiteSpace ch"
  proof -
    from that have "trim (stripTags c) = []"
      by (simp add: trim_Nil_iff)
    then show ?thesis
      by (simp add: title_spec_def first_text_line_def first_text_line_eq)
  qed
  then show ?thesis
    by (simp add: titleFromContent_eq updateNoteTitle_def)
qed

lemma title_examples:
  "titleFromContent long_line = ''01234567890123456789012345678901234567890123456789...''"
  "titleFromContent shopping = ''Shopping list''"
  "titleFromContent ''<p> </p>'' = ''Untitled Note''"
  "stripTags ''<p> </p>'' = '' ''"
  by (simp_all add: titleFromContent_def extractFirstLineAsTitle_def trim_def isWhiteSpace_def
      long_line_def shopping_def Let_def)

theorem updateNoteTitle_title_witness:
  "title_spec long_line = ''01234567890123456789012345678901234567890123456789...'' \<and>
   title_spec shopping = ''Shopping list'' \<and>
   stripTags ''<p> </p>'' = '' '' \<and> isWhiteSpace (CHR '' '') \<and>
   title_spec ''<p> </p>'' = ''Untitled Note'' \<and>
   updateNoteTitle ''a'' shopping (page None three_notes (Some ''a'') [] (\<lambda>k. NoFault)) =
     snd (updateNote ''a'' \<lparr>new_title = Some ''Shopping list'', new_content = Some shopping\<rparr>
            (page None three_notes (Some ''a'') [] (\<lambda>k. NoFault)))"
proof -
  have ws: "\<forall>ch\<in>set (stripTags ''<p> </p>''). isWhiteSpace ch" and sp: "isWhiteSpace (CHR '' '')"
    by (simp_all add: isWhiteSpace_def)
  from updateNoteTitle_title [of long_line] title_examples(1)
  have a: "title_spec long_line = ''01234567890123456789012345678901234567890123456789...''"
    by simp
  from updateNoteTitle_title [of shopping "''a''" "page None three_notes (Some ''a'') [] (\<lambda>k. NoFault)"]
    title_examples(2)
  have b: "title_spec shopping = ''Shopping list''"
    and c: "updateNoteTitle ''a'' shopping (page None three_notes (Some ''a'') [] (\<lambda>k. NoFault)) =
     snd (updateNote ''a'' \<lparr>new_title = Some ''Shopping list'', new_content = Some shopping\<rparr>
            (page None three_notes (Some ''a'') [] (\<lambda>k. NoFault)))"
    by simp_all
  from updateNoteTitle_title [of "''<p> </p>''"] ws
  have d: "title_spec ''<p> </p>'' = ''Untitled Note''"
    by blast
  show ?thesis
    using a b c d sp title_examples(4) by simp
qed

subsection \<open>Creating a note\<close>

text \<open>
  C6, as the code has it. When the store works on the backend for a signed-in user and the
  insert fails (an error answer or a rejected promise), \<open>createNote\<close> still returns a
  note: it has the generated identifier, the given title and content, stands first in the
  list and is the active note, and the remote table gets no row. The list and the active
  identifier are written to the local storage when the storage takes the write; when it
  does not, the storage keeps what it held. The model of \<open>createNote\<close> has no error
  result because every exception of the source is caught inside it.
\<close>

theorem createNote_falls_back:
  assumes "useDatabase w" and "auth w = Some u" and "fate w \<noteq> NoFault"
  shows "fst (createNote t c w) =
           \<lparr>note_id = ''note_'' @ decimal (clock w) @ ''_'' @ random w (drawn w),
            title = t, content = c, createdAt = clock w, updatedAt = clock w\<rparr> \<and>
         noteList (snd (createNote t c w)) = fst (createNote t c w) # noteList w \<and>
         activeNoteId (snd (createNote t c w)) = Some (note_id (fst (createNote t c w))) \<and>
         (if ls_writable w
          then ls_notes (snd (createNote t c w)) = Some (noteList (snd (createNote t c w))) \<and>
               ls_active_id (snd (createNote t c w)) = Some (note_id (fst (createNote t c w)))
          else ls_notes (snd (createNote t c w)) = ls_notes w \<and>
               ls_active_id (snd (createNote t c w)) = ls_active_id w) \<and>
         table (snd (createNote t c w)) = table w \<and>
         sent (snd (createNote t c w)) = sent w @ [Insert (uid u) t c]"
  using assms
  by (cases "fate w")
     (simp_all add: createNote_def createNoteInDatabase_def remote_insert_def log_def
        createNoteInStorage_def generateId_def saveNotesToStorage_def Let_def)

theorem createNote_falls_back_witness:
  "useDatabase (page (Some alice) three_notes (Some ''a'') [] down) \<and>
   auth (page (Some alice) three_notes (Some ''a'') [] down) = Some alice \<and>
   fate (page (Some alice) three_notes (Some ''a'') [] down) \<noteq> NoFault \<and>
   fst (createNote ''Title'' ''<p>text</p>'' (page (Some alice) three_notes (Some ''a'') [] down))
     = \<lparr>note_id = ''note_1000_r0'', title = ''Title'', content = ''<p>text</p>'',
        createdAt = 1000, updatedAt = 1000\<rparr> \<and>
   map note_id (noteList (snd (createNote ''Title'' ''<p>text</p>''
      (page (Some alice) three_notes (Some ''a'') [] down)))) =
     [''note_1000_r0'', ''a'', ''b'', ''c''] \<and>
   activeNoteId (snd (createNote ''Title'' ''<p>text</p>''
      (page (Some alice) three_notes (Some ''a'') [] down))) = Some ''note_1000_r0'' \<and>
   ls_notes (snd (createNote ''Title'' ''<p>text</p>''
      (page (Some alice) three_notes (Some ''a'') [] down))) =
     Some (noteList (snd (createNote ''Title'' ''<p>text</p>''
      (page (Some alice) three_notes (Some ''a'') [] down)))) \<and>
   ls_active_id (snd (createNote ''Title'' ''<p>text</p>''
      (page (Some alice) three_notes (Some ''a'') [] down))) = Some ''note_1000_r0''"
proof -
  let ?w = "page (Some alice) three_notes (Some ''a'') [] down"
  have h1: "useDatabase ?w" and h2: "auth ?w = Some alice" and h3: "fate ?w \<noteq> NoFault"
    by (simp_all add: page_def fate_def down_def)
  have i: "''note_'' @ decimal (clock ?w) @ ''_'' @ random ?w (drawn ?w) = ''note_1000_r0''"
    by (simp add: page_def decimal.simps)
  have f: "noteList ?w = three_notes" "ls_writable ?w" "clock ?w = 1000"
    by (simp_all add: page_def)
  define res where "res = createNote ''Title'' ''<p>text</p>'' ?w"
  from createNote_falls_back [OF h1 h2 h3, of "''Title''" "''<p>text</p>''"]
  have r: "fst res = \<lparr>note_id = ''note_1000_r0'', title = ''Title'', content = ''<p>text</p>'',
                       createdAt = 1000, updatedAt = 1000\<rparr>"
    and n: "noteList (snd res) = fst res # three_notes"
    and a: "activeNoteId (snd res) = Some (note_id (fst res))"
    and l: "ls_notes (snd res) = Some (noteList (snd res))"
           "ls_active_id (snd res) = Some (note_id (fst res))"
    unfolding i res_def [symmetric] by (simp_all add: f)
  show ?thesis
    unfolding res_def [symmetric] using h1 h2 h3 r n a l
    by (simp add: three_notes_def mk_note_def)
qed

text \<open>
  The local storage takes no write: the note is created and put first, and nothing is
  mirrored.
\<close>

theorem createNote_mirror_counterexample:
  "useDatabase storage_full \<and> auth storage_full = Some alice \<and>
   fate storage_full \<noteq> NoFault \<and>
   map note_id (noteList (snd (createNote ''Title'' ''<p>text</p>'' storage_full))) =
     [''note_1000_r0'', ''a'', ''b'', ''c''] \<and>
   ls_notes (snd (createNote ''Title'' ''<p>text</p>'' storage_full)) = None \<and>
   ls_active_id (snd (createNote ''Title'' ''<p>text</p>'' storage_full)) = None"
  by (simp add: storage_full_def page_def down_def fate_def createNote_def
      createNoteInDatabase_def remote_insert_def log_def createNoteInStorage_def
      generateId_def saveNotesToStorage_def decimal.simps three_notes_def mk_note_def Let_def)

subsection \<open>Updating a note\<close>

lemma saveNotesToStorage_frame:
  "noteList (saveNotesToStorage w) = noteList w \<and>
   activeNoteId (saveNotesToStorage w) = activeNoteId w \<and>
   timers (saveNotesToStorage w) = timers w \<and>
   sent (saveNotesToStorage w) = sent w"
  by (simp add: saveNotesToStorage_def)

lemma updateNoteInStorage_timers:
  "timers (snd (updateNoteInStorage i upd w)) = timers w \<and>
   sent (snd (updateNoteInStorage i upd w)) = sent w"
  by (simp add: updateNoteInStorage_def Let_def saveNotesToStorage_frame split: option.splits)

lemma remote_update_timers:
  "timers (snd (remote_update i u upd ts w)) = timers w \<and>
   sent (snd (remote_update i u upd ts w)) = sent w @ [Update i u upd ts]"
  by (cases "fate w")
     (simp_all add: remote_update_def log_def Let_def split: option.splits)

lemma updateNoteInDatabase_timers:
  "timers (snd (updateNoteInDatabase i upd w)) = timers w"
  and updateNoteInDatabase_sent:
  "auth w = Some u \<Longrightarrow>
   sent (snd (updateNoteInDatabase i upd w)) = sent w @ [Update i (uid u) upd (clock w)]"
proof -
  show "timers (snd (updateNoteInDatabase i upd w)) = timers w"
  proof (cases "auth w")
    case None
    then show ?thesis
      by (simp add: updateNoteInDatabase_def updateNoteInStorage_timers)
  next
    case (Some u)
    obtain res w1 where r: "remote_update i (uid u) upd (clock w) w = (res, w1)"
      by (cases "remote_update i (uid u) upd (clock w) w")
    with remote_update_timers [of i "uid u" upd "clock w" w] have "timers w1 = timers w"
      by simp
    with Some r show ?thesis
      by (cases res)
         (simp_all add: updateNoteInDatabase_def updateNoteInStorage_timers Let_def
            saveNotesToStorage_frame split: option.splits)
  qed
  show "sent (snd (updateNoteInDatabase i upd w)) = sent w @ [Update i (uid u) upd (clock w)]"
    if u: "auth w = Some u"
  proof -
    obtain res w1 where r: "remote_update i (uid u) upd (clock w) w = (res, w1)"
      by (cases "remote_update i (uid u) upd (clock w) w")
    with remote_update_timers [of i "uid u" upd "clock w" w]
    have "sent w1 = sent w @ [Update i (uid u) upd (clock w)]"
      by simp
    with u r show ?thesis
      by (cases res)
         (simp_all add: updateNoteInDatabase_def updateNoteInStorage_timers Let_def
            saveNotesToStorage_frame split: option.splits)
  qed
qed

lemma updateNote_timers: "timers (snd (updateNote i upd w)) = timers w"
  by (simp add: updateNote_def updateNoteInDatabase_timers updateNoteInStorage_timers)

lemma updateNote_session:
  "auth (snd (updateNote i upd w)) = auth w \<and>
   autoSaveTimeout (snd (updateNote i upd w)) = autoSaveTimeout w"
proof -
  have st: "auth (snd (updateNoteInStorage i upd v)) = auth v \<and>
            autoSaveTimeout (snd (updateNoteInStorage i upd v)) = autoSaveTimeout v" for v
    by (simp add: updateNoteInStorage_def saveNotesToStorage_def Let_def split: option.splits)
  have ru: "auth (snd (remote_update i u upd ts w)) = auth w \<and>
            autoSaveTimeout (snd (remote_update i u upd ts w)) = autoSaveTimeout w" for u ts
    by (cases "fate w") (simp_all add: remote_update_def log_def Let_def split: option.splits)
  have db: "auth (snd (updateNoteInDatabase i upd w)) = auth w \<and>
            autoSaveTimeout (snd (updateNoteInDatabase i upd w)) = autoSaveTimeout w"
  proof (cases "auth w")
    case None
    then show ?thesis by (simp add: updateNoteInDatabase_def st)
  next
    case (Some u)
    obtain res w1 where r: "remote_update i (uid u) upd (clock w) w = (res, w1)"
      by (cases "remote_update i (uid u) upd (clock w) w")
    with ru [of "uid u" "clock w"] have "auth w1 = auth w" "autoSaveTimeout w1 = autoSaveTimeout w"
      by simp_all
    with Some r show ?thesis
      by (cases res)
         (simp_all add: updateNoteInDatabase_def st saveNotesToStorage_def Let_def
            split: option.splits)
  qed
  show ?thesis
    by (simp add: updateNote_def st db)
qed

lemma updateNoteTitle_timers: "timers (updateNoteTitle i c w) = timers w"
  by (simp add: updateNoteTitle_def updateNote_def updateNoteInDatabase_timers
      updateNoteInStorage_timers)

lemma updateNoteTitle_sent:
  "useDatabase w \<Longrightarrow> auth w = Some u \<Longrightarrow>
   sent (updateNoteTitle i c w) =
     sent w @ [Update i (uid u) \<lparr>new_title = Some (titleFromContent c), new_content = Some c\<rparr>
                 (clock w)]"
  by (simp add: updateNoteTitle_def updateNote_def updateNoteInDatabase_sent)

lemma findIndex_find:
  "findIndex p xs = None \<longleftrightarrow> find p xs = None"
  "findIndex p xs = Some k \<Longrightarrow> find p xs = Some (xs ! k)"
  by (induction xs arbitrary: k) (auto split: if_splits)

lemma note_of_row_apply_updates:
  "note_of_row (apply_updates upd ts r) = merge (note_of_row r) upd ts"
  by (simp add: note_of_row_def apply_updates_def merge_def split: option.splits)

lemma updateNoteInStorage_absent:
  "findIndex (\<lambda>n. note_id n = i) (noteList w) = None \<Longrightarrow> updateNoteInStorage i upd w = (None, w)"
  by (simp add: updateNoteInStorage_def)

lemma updateNoteInStorage_present:
  "findIndex (\<lambda>n. note_id n = i) (noteList w) = Some k \<Longrightarrow>
   updateNoteInStorage i upd w =
     (Some (merge (noteList w ! k) upd (clock w)),
      saveNotesToStorage (w\<lparr>noteList := (noteList w)[k := merge (noteList w ! k) upd (clock w)]\<rparr>))"
  by (simp add: updateNoteInStorage_def Let_def)

text \<open>The remote update, by what \<open>served_row\<close> says.\<close>

lemma remote_update_unserved:
  assumes "auth w = Some u" and "useDatabase w" and "served_row i w = None"
  shows "\<exists>w1. (remote_update i (uid u) upd ts w = (Error, w1) \<or>
               remote_update i (uid u) upd ts w = (Thrown, w1)) \<and>
              noteList w1 = noteList w \<and> activeNoteId w1 = activeNoteId w \<and>
              clock w1 = clock w \<and> ls_writable w1 = ls_writable w"
  using assms
  by (cases "fate w")
     (auto simp: remote_update_def served_row_def log_def findIndex_find(1) [symmetric]
        split: option.splits)

lemma remote_update_served:
  assumes "auth w = Some u" and "useDatabase w" and "served_row i w = Some r"
  shows "\<exists>w1. remote_update i (uid u) upd ts w = (Data (apply_updates upd ts r), w1) \<and>
              noteList w1 = noteList w \<and> activeNoteId w1 = activeNoteId w"
proof -
  from assms have f: "fate w = NoFault"
    and r: "find (\<lambda>r. row_id r = i \<and> user_id r = uid u) (table w) = Some r"
    by (auto simp: served_row_def split: if_splits)
  then obtain k where k: "findIndex (\<lambda>r. row_id r = i \<and> user_id r = uid u) (table w) = Some k"
    using findIndex_find(1) [of "\<lambda>r. row_id r = i \<and> user_id r = uid u" "table w"]
    by (cases "findIndex (\<lambda>r. row_id r = i \<and> user_id r = uid u) (table w)") auto
  with r have "table w ! k = r"
    using findIndex_find(2) [OF k] by simp
  with f k show ?thesis
    by (simp add: remote_update_def log_def Let_def)
qed

text \<open>
  C9, as the code has it. For an identifier that is not in the list, \<open>updateNote\<close>
  returns nothing and leaves the list and the active note as they were. For an identifier
  in the list, the note at its first position becomes the merge of the given fields and
  the time stamp into a base note, and no other position changes: the base is the local
  note when the write is local, and the note of the user's remote row when the backend
  serves the update.
\<close>

theorem updateNote_effect:
  "(findIndex (\<lambda>n. note_id n = i) (noteList w) = None \<longrightarrow>
      fst (updateNote i upd w) = None \<and>
      noteList (snd (updateNote i upd w)) = noteList w \<and>
      activeNoteId (snd (updateNote i upd w)) = activeNoteId w) \<and>
   (\<forall>k. findIndex (\<lambda>n. note_id n = i) (noteList w) = Some k \<longrightarrow>
      fst (updateNote i upd w) =
        Some (merge (case served_row i w of None \<Rightarrow> noteList w ! k | Some r \<Rightarrow> note_of_row r)
                upd (clock w)) \<and>
      noteList (snd (updateNote i upd w)) =
        (noteList w)[k := merge (case served_row i w of
                                   None \<Rightarrow> noteList w ! k
                                 | Some r \<Rightarrow> note_of_row r) upd (clock w)] \<and>
      activeNoteId (snd (updateNote i upd w)) = activeNoteId w)"
proof (cases "useDatabase w \<and> auth w \<noteq> None")
  case False
  then have route: "updateNote i upd w = updateNoteInStorage i upd w"
    by (auto simp: updateNote_def)
  from False have "served_row i w = None"
    by (auto simp: served_row_def)
  then show ?thesis
    unfolding route
    by (auto simp: updateNoteInStorage_absent updateNoteInStorage_present
        saveNotesToStorage_frame)
next
  case True
  then obtain u where u: "auth w = Some u" and db: "useDatabase w"
    by auto
  then have route: "updateNote i upd w = updateNoteInDatabase i upd w"
    by (simp add: updateNote_def)
  show ?thesis
  proof (cases "served_row i w")
    case None
    from remote_update_unserved [OF u db None, of upd "clock w"]
    obtain w1 where w1: "remote_update i (uid u) upd (clock w) w = (Error, w1) \<or>
          remote_update i (uid u) upd (clock w) w = (Thrown, w1)"
      and fr: "noteList w1 = noteList w" "activeNoteId w1 = activeNoteId w" "clock w1 = clock w"
      by blast
    from w1 u have "updateNoteInDatabase i upd w = updateNoteInStorage i upd w1"
      by (auto simp: updateNoteInDatabase_def)
    with None fr show ?thesis
      unfolding route
      by (auto simp: updateNoteInStorage_absent updateNoteInStorage_present
          saveNotesToStorage_frame)
  next
    case (Some r)
    from remote_update_served [OF u db Some, of upd "clock w"]
    obtain w1 where w1: "remote_update i (uid u) upd (clock w) w =
          (Data (apply_updates upd (clock w) r), w1)"
      and fr: "noteList w1 = noteList w" "activeNoteId w1 = activeNoteId w"
      by blast
    from w1 u fr Some show ?thesis
      unfolding route
      by (auto simp: updateNoteInDatabase_def note_of_row_apply_updates Let_def
          saveNotesToStorage_frame)
  qed
qed

theorem updateNote_effect_witness:
  "findIndex (\<lambda>n. note_id n = ''zz'') (noteList stale) = None \<and>
   fst (updateNote ''zz'' content_only stale) = None \<and>
   noteList (snd (updateNote ''zz'' content_only stale)) = noteList stale \<and>
   activeNoteId (snd (updateNote ''zz'' content_only stale)) = activeNoteId stale \<and>
   findIndex (\<lambda>n. note_id n = ''r1'') (noteList stale) = Some 0 \<and>
   served_row ''r1'' stale = Some (mk_row ''r1'' ''u1'' ''Renamed elsewhere'' ''<p>x</p>'') \<and>
   noteList (snd (updateNote ''r1'' content_only stale)) =
     [\<lparr>note_id = ''r1'', title = ''Renamed elsewhere'', content = ''<p>y</p>'',
       createdAt = 0, updatedAt = 1000\<rparr>] \<and>
   findIndex (\<lambda>n. note_id n = ''b'')
     (noteList (page None three_notes (Some ''a'') [] (\<lambda>k. NoFault))) = Some 1 \<and>
   served_row ''b'' (page None three_notes (Some ''a'') [] (\<lambda>k. NoFault)) = None \<and>
   noteList (snd (updateNote ''b'' content_only (page None three_notes (Some ''a'') [] (\<lambda>k. NoFault))))
     = [mk_note ''a'' ''First'' ''<p>one</p>'',
        \<lparr>note_id = ''b'', title = ''Second'', content = ''<p>y</p>'',
         createdAt = 0, updatedAt = 1000\<rparr>,
        mk_note ''c'' ''Third'' ''<p>three</p>'']"
proof -
  let ?p = "page None three_notes (Some ''a'') [] (\<lambda>k. NoFault)"
  have h1: "findIndex (\<lambda>n. note_id n = ''zz'') (noteList stale) = None"
    and h2: "findIndex (\<lambda>n. note_id n = ''r1'') (noteList stale) = Some 0"
    and h3: "served_row ''r1'' stale = Some (mk_row ''r1'' ''u1'' ''Renamed elsewhere'' ''<p>x</p>'')"
    and h4: "findIndex (\<lambda>n. note_id n = ''b'') (noteList ?p) = Some 1"
    and h5: "served_row ''b'' ?p = None"
    by (simp_all add: stale_def page_def mk_note_def mk_row_def alice_def served_row_def
        fate_def three_notes_def)
  have s: "noteList stale = [mk_note ''r1'' ''Old title'' ''<p>x</p>'']" "clock stale = 1000"
    "noteList ?p = three_notes" "clock ?p = 1000"
    by (simp_all add: stale_def page_def)
  from updateNote_effect [of "''zz''" stale content_only] h1
  have a: "fst (updateNote ''zz'' content_only stale) = None"
    "noteList (snd (updateNote ''zz'' content_only stale)) = noteList stale"
    "activeNoteId (snd (updateNote ''zz'' content_only stale)) = activeNoteId stale"
    by blast+
  from updateNote_effect [of "''r1''" stale content_only] h2
  have "noteList (snd (updateNote ''r1'' content_only stale)) =
          (noteList stale)[0 := merge (case served_row ''r1'' stale of
                                   None \<Rightarrow> noteList stale ! 0
                                 | Some r \<Rightarrow> note_of_row r) content_only (clock stale)]"
    by blast
  then have b: "noteList (snd (updateNote ''r1'' content_only stale)) =
     [\<lparr>note_id = ''r1'', title = ''Renamed elsewhere'', content = ''<p>y</p>'',
       createdAt = 0, updatedAt = 1000\<rparr>]"
    unfolding h3 s by (simp add: merge_def note_of_row_def mk_row_def content_only_def mk_note_def)
  from updateNote_effect [of "''b''" ?p content_only] h4
  have "noteList (snd (updateNote ''b'' content_only ?p)) =
          (noteList ?p)[1 := merge (case served_row ''b'' ?p of
                                   None \<Rightarrow> noteList ?p ! 1
                                 | Some r \<Rightarrow> note_of_row r) content_only (clock ?p)]"
    by blast
  then have c: "noteList (snd (updateNote ''b'' content_only ?p)) =
      [mk_note ''a'' ''First'' ''<p>one</p>'',
        \<lparr>note_id = ''b'', title = ''Second'', content = ''<p>y</p>'',
         createdAt = 0, updatedAt = 1000\<rparr>,
        mk_note ''c'' ''Third'' ''<p>three</p>'']"
    unfolding h5 s by (simp add: merge_def content_only_def mk_note_def three_notes_def)
  show ?thesis
    using h1 h2 h3 h4 h5 a b c by simp
qed

text \<open>
  The title was changed on another device and only a new content is given: the local
  note takes the remote title, so the result is not the merge into the local note.
\<close>

theorem updateNote_merge_counterexample:
  "findIndex (\<lambda>n. note_id n = ''r1'') (noteList stale) = Some 0 \<and>
   title (noteList stale ! 0) = ''Old title'' \<and>
   new_title content_only = None \<and>
   map title (noteList (snd (updateNote ''r1'' content_only stale))) = [''Renamed elsewhere''] \<and>
   fst (updateNote ''r1'' content_only stale) \<noteq>
     Some (merge (noteList stale ! 0) content_only (clock stale))"
  by (simp add: stale_def content_only_def page_def mk_note_def mk_row_def alice_def
      updateNote_def updateNoteInDatabase_def remote_update_def fate_def log_def
      apply_updates_def note_of_row_def saveNotesToStorage_def merge_def Let_def)

subsection \<open>Auto-save\<close>

text \<open>After a call with a session, the timer of that call is the only one pending.\<close>

lemma autoSaveNote_schedules:
  assumes "auth w \<noteq> None" and "own_timers w"
  shows "autoSaveNote i c ms w =
           w\<lparr>handles := Suc (handles w),
             timers := [\<lparr>handle = Suc (handles w), due = clock w + ms,
                         cb_id = i, cb_content = c\<rparr>],
             autoSaveTimeout := Some (Suc (handles w))\<rparr>"
proof (cases "timers w = []")
  case True
  with assms(1) show ?thesis
    by (auto simp: autoSaveNote_def setTimeout_def clearTimeout_def Let_def
        split: option.splits)
next
  case False
  then obtain t where t: "t \<in> set (timers w)"
    by (cases "timers w") auto
  with assms(2) have h: "autoSaveTimeout w = Some (handle t)" "handle t \<noteq> 0"
    by (auto simp: own_timers_def)
  from assms(2) h have "filter (\<lambda>x. handle x \<noteq> handle t) (timers w) = []"
    by (auto simp: own_timers_def filter_empty_conv)
  with assms(1) h show ?thesis
    by (auto simp: autoSaveNote_def setTimeout_def clearTimeout_def Let_def)
qed

lemma elapse_early:
  assumes "timers w = [t]" and "clock w + ms < due t"
  shows "elapse ms w = w\<lparr>clock := clock w + ms\<rparr>"
  using assms by (simp add: elapse_def Let_def)

lemma elapse_due:
  assumes "timers w = [t]" and "due t \<le> clock w + ms"
  shows "elapse ms w =
           updateNoteTitle (cb_id t) (cb_content t) (w\<lparr>clock := clock w + ms, timers := []\<rparr>)"
  using assms by (simp add: elapse_def Let_def run_timer_def)

lemma run_timer_frame:
  "timers (run_timer t w) = timers w \<and> autoSaveTimeout (run_timer t w) = autoSaveTimeout w \<and>
   auth (run_timer t w) = auth w"
  by (simp add: run_timer_def updateNoteTitle_def updateNote_timers updateNote_session)

lemma fold_run_timer_frame:
  "timers (fold run_timer ts w) = timers w \<and>
   autoSaveTimeout (fold run_timer ts w) = autoSaveTimeout w \<and>
   auth (fold run_timer ts w) = auth w"
  by (induction ts arbitrary: w) (simp_all add: run_timer_frame)

text \<open>The two operations that touch the timer table keep \<open>own_timers\<close>.\<close>

lemma own_timers_elapse: "own_timers w \<Longrightarrow> own_timers (elapse ms w)"
  by (simp add: elapse_def Let_def fold_run_timer_frame own_timers_def)

lemma own_timers_autoSaveNote: "own_timers w \<Longrightarrow> own_timers (autoSaveNote i c ms w)"
  by (cases "auth w = None")
     (simp_all add: autoSaveNote_schedules, simp_all add: autoSaveNote_def own_timers_def)

text \<open>What one \<open>updateNote\<close> leaves in the list, the local storage, the table and the log.\<close>

lemma findIndex_less: "findIndex p xs = Some k \<Longrightarrow> k < length xs"
  by (induction xs arbitrary: k) (auto split: if_splits)

lemma updateNote_sent:
  "auth w = Some u \<Longrightarrow>
   sent (snd (updateNote i upd w)) =
     (if useDatabase w then sent w @ [Update i (uid u) upd (clock w)] else sent w)"
  by (simp add: updateNote_def updateNoteInDatabase_sent updateNoteInStorage_timers)

lemma updateNoteInStorage_mirror:
  "findIndex (\<lambda>n. note_id n = i) (noteList w) = Some k \<Longrightarrow> ls_writable w \<Longrightarrow>
   ls_notes (snd (updateNoteInStorage i upd w)) =
     Some (noteList (snd (updateNoteInStorage i upd w)))"
  by (simp add: updateNoteInStorage_def saveNotesToStorage_def Let_def)

lemma remote_update_storage:
  "ls_notes (snd (remote_update i u upd ts w)) = ls_notes w \<and>
   ls_active_id (snd (remote_update i u upd ts w)) = ls_active_id w \<and>
   ls_writable (snd (remote_update i u upd ts w)) = ls_writable w \<and>
   noteList (snd (remote_update i u upd ts w)) = noteList w"
  by (cases "fate w") (simp_all add: remote_update_def log_def Let_def split: option.splits)

lemma updateNote_mirror:
  assumes "findIndex (\<lambda>n. note_id n = i) (noteList w) = Some k" and "ls_writable w"
  shows "ls_notes (snd (updateNote i upd w)) = Some (noteList (snd (updateNote i upd w)))"
proof (cases "useDatabase w \<and> auth w \<noteq> None")
  case False
  then have "updateNote i upd w = updateNoteInStorage i upd w"
    by (auto simp: updateNote_def)
  with assms show ?thesis
    by (simp add: updateNoteInStorage_mirror)
next
  case True
  then obtain u where u: "auth w = Some u" by auto
  obtain res w1 where r: "remote_update i (uid u) upd (clock w) w = (res, w1)"
    by (cases "remote_update i (uid u) upd (clock w) w")
  with remote_update_storage [of i "uid u" upd "clock w" w] assms
  have w1: "findIndex (\<lambda>n. note_id n = i) (noteList w1) = Some k" "ls_writable w1"
    by simp_all
  from True u r w1 show ?thesis
    by (cases res)
       (simp_all add: updateNote_def updateNoteInDatabase_def updateNoteInStorage_mirror
          saveNotesToStorage_def Let_def)
qed

lemma updateNote_absent_storage:
  assumes "findIndex (\<lambda>n. note_id n = i) (noteList w) = None"
  shows "ls_notes (snd (updateNote i upd w)) = ls_notes w \<and>
         ls_active_id (snd (updateNote i upd w)) = ls_active_id w"
proof (cases "useDatabase w \<and> auth w \<noteq> None")
  case False
  then have "updateNote i upd w = updateNoteInStorage i upd w"
    by (auto simp: updateNote_def)
  with assms show ?thesis
    by (simp add: updateNoteInStorage_absent)
next
  case True
  then obtain u where u: "auth w = Some u" by auto
  obtain res w1 where r: "remote_update i (uid u) upd (clock w) w = (res, w1)"
    by (cases "remote_update i (uid u) upd (clock w) w")
  with remote_update_storage [of i "uid u" upd "clock w" w] assms
  have w1: "findIndex (\<lambda>n. note_id n = i) (noteList w1) = None"
    "ls_notes w1 = ls_notes w" "ls_active_id w1 = ls_active_id w"
    by simp_all
  from True u r w1 show ?thesis
    by (cases res)
       (simp_all add: updateNote_def updateNoteInDatabase_def updateNoteInStorage_absent)
qed

lemma updateNoteInStorage_table: "table (snd (updateNoteInStorage i upd w)) = table w"
  by (simp add: updateNoteInStorage_def saveNotesToStorage_def Let_def split: option.splits)

lemma updateNote_table:
  "(served_row i w = None \<longrightarrow> table (snd (updateNote i upd w)) = table w) \<and>
   (\<forall>r. served_row i w = Some r \<longrightarrow>
      (\<exists>j<length (table w). table w ! j = r \<and>
         table (snd (updateNote i upd w)) = (table w)[j := apply_updates upd (clock w) r]))"
proof (cases "useDatabase w \<and> auth w \<noteq> None")
  case False
  then have "updateNote i upd w = updateNoteInStorage i upd w" "served_row i w = None"
    by (auto simp: updateNote_def served_row_def)
  then show ?thesis
    by (simp add: updateNoteInStorage_table)
next
  case True
  then obtain u where u: "auth w = Some u" and db: "useDatabase w" by auto
  then have route: "updateNote i upd w = updateNoteInDatabase i upd w"
    by (simp add: updateNote_def)
  show ?thesis
  proof (cases "served_row i w")
    case None
    have "table (snd (remote_update i (uid u) upd (clock w) w)) = table w"
      using None u db
      by (cases "fate w")
         (auto simp: remote_update_def served_row_def log_def findIndex_find(1) [symmetric]
            split: option.splits)
    moreover from remote_update_unserved [OF u db None, of upd "clock w"]
    obtain w1 where "remote_update i (uid u) upd (clock w) w = (Error, w1) \<or>
          remote_update i (uid u) upd (clock w) w = (Thrown, w1)"
      by blast
    ultimately show ?thesis
      using None u unfolding route
      by (auto simp: updateNoteInDatabase_def updateNoteInStorage_table)
  next
    case (Some r)
    from Some u db have f: "fate w = NoFault"
      and fr: "find (\<lambda>r. row_id r = i \<and> user_id r = uid u) (table w) = Some r"
      by (auto simp: served_row_def split: if_splits)
    then obtain j where j: "findIndex (\<lambda>r. row_id r = i \<and> user_id r = uid u) (table w) = Some j"
      using findIndex_find(1) [of "\<lambda>r. row_id r = i \<and> user_id r = uid u" "table w"]
      by (cases "findIndex (\<lambda>r. row_id r = i \<and> user_id r = uid u) (table w)") auto
    with fr have jr: "table w ! j = r"
      using findIndex_find(2) [OF j] by simp
    have jl: "j < length (table w)"
      using j by (rule findIndex_less)
    have "table (snd (updateNoteInDatabase i upd w)) =
            (table w)[j := apply_updates upd (clock w) r]"
      using u f j jr
      by (simp add: updateNoteInDatabase_def remote_update_def log_def Let_def
          saveNotesToStorage_def split: option.splits)
    with Some jr jl show ?thesis
      unfolding route by auto
  qed
qed

lemma updateNote_list:
  "noteList (snd (updateNote i upd w)) =
     (case findIndex (\<lambda>n. note_id n = i) (noteList w) of
        None \<Rightarrow> noteList w
      | Some k \<Rightarrow>
          (noteList w)[k := merge (case served_row i w of
                                     None \<Rightarrow> noteList w ! k
                                   | Some r \<Rightarrow> note_of_row r) upd (clock w)])"
proof (cases "useDatabase w \<and> auth w \<noteq> None")
  case False
  then have route: "updateNote i upd w = updateNoteInStorage i upd w"
    by (auto simp: updateNote_def)
  from False have "served_row i w = None"
    by (auto simp: served_row_def)
  then show ?thesis
    unfolding route
    by (auto simp: updateNoteInStorage_absent updateNoteInStorage_present
        saveNotesToStorage_frame split: option.splits)
next
  case True
  then obtain u where u: "auth w = Some u" and db: "useDatabase w"
    by auto
  then have route: "updateNote i upd w = updateNoteInDatabase i upd w"
    by (simp add: updateNote_def)
  show ?thesis
  proof (cases "served_row i w")
    case None
    from remote_update_unserved [OF u db None, of upd "clock w"]
    obtain w1 where w1: "remote_update i (uid u) upd (clock w) w = (Error, w1) \<or>
          remote_update i (uid u) upd (clock w) w = (Thrown, w1)"
      and fr: "noteList w1 = noteList w" "clock w1 = clock w"
      by blast
    from w1 u have "updateNoteInDatabase i upd w = updateNoteInStorage i upd w1"
      by (auto simp: updateNoteInDatabase_def)
    with None fr show ?thesis
      unfolding route
      by (auto simp: updateNoteInStorage_absent updateNoteInStorage_present
          saveNotesToStorage_frame split: option.splits)
  next
    case (Some r)
    from remote_update_served [OF u db Some, of upd "clock w"]
    obtain w1 where w1: "remote_update i (uid u) upd (clock w) w =
          (Data (apply_updates upd (clock w) r), w1)"
      and fr: "noteList w1 = noteList w"
      by blast
    from w1 u fr Some show ?thesis
      unfolding route
      by (auto simp: updateNoteInDatabase_def note_of_row_apply_updates Let_def
          saveNotesToStorage_frame split: option.splits)
  qed
qed

text \<open>A world that differs in the clock and the timer table only is served the same row.\<close>

lemma served_row_later:
  "served_row i (w\<lparr>clock := t, handles := h, timers := ts, autoSaveTimeout := a\<rparr>) =
   served_row i w"
  by (cases "auth w") (simp_all add: served_row_def fate_def)

text \<open>
  C7, as the code has it. Without a session \<open>autoSaveNote\<close> changes nothing. With a
  session, let a first call be followed, before its delay is over, by a second call, for
  the same note or another one. Then the timer of the second call is the only one pending,
  and when its delay is over a single \<open>updateNoteTitle\<close> with the second content has
  run and no timer is left. A store that works on the backend has sent one update request,
  a store that works locally none. If the note of the second call is in the list, it holds
  the second content and the title derived from it, and the list is written to the local
  storage when the storage takes the write; if it is not in the list, the list and the
  stored list are unchanged. The table changes in the row that the backend serves the
  update on, and not at all when there is no such row.
\<close>

theorem autoSaveNote_debounce:
  "(auth w = None \<longrightarrow> autoSaveNote i c ms w = w) \<and>
   (auth w = Some u \<and> own_timers w \<and> gap < ms1 \<longrightarrow>
      timers (two_calls i1 c1 ms1 gap i2 c2 ms2 w) =
        [\<lparr>handle = Suc (Suc (handles w)), due = clock w + gap + ms2,
          cb_id = i2, cb_content = c2\<rparr>] \<and>
      elapse ms2 (two_calls i1 c1 ms1 gap i2 c2 ms2 w) =
        updateNoteTitle i2 c2
          (w\<lparr>clock := clock w + gap + ms2, handles := Suc (Suc (handles w)), timers := [],
             autoSaveTimeout := Some (Suc (Suc (handles w)))\<rparr>) \<and>
      timers (elapse ms2 (two_calls i1 c1 ms1 gap i2 c2 ms2 w)) = [] \<and>
      sent (elapse ms2 (two_calls i1 c1 ms1 gap i2 c2 ms2 w)) =
        (if useDatabase w
         then sent w @ [Update i2 (uid u) (title_and_content c2) (clock w + gap + ms2)]
         else sent w) \<and>
      noteList (elapse ms2 (two_calls i1 c1 ms1 gap i2 c2 ms2 w)) =
        (case findIndex (\<lambda>n. note_id n = i2) (noteList w) of
           None \<Rightarrow> noteList w
         | Some k \<Rightarrow>
             (noteList w)[k := merge (case served_row i2 w of
                                        None \<Rightarrow> noteList w ! k
                                      | Some r \<Rightarrow> note_of_row r)
                                (title_and_content c2) (clock w + gap + ms2)]) \<and>
      (\<forall>k. findIndex (\<lambda>n. note_id n = i2) (noteList w) = Some k \<and> ls_writable w \<longrightarrow>
         ls_notes (elapse ms2 (two_calls i1 c1 ms1 gap i2 c2 ms2 w)) =
           Some (noteList (elapse ms2 (two_calls i1 c1 ms1 gap i2 c2 ms2 w)))) \<and>
      (findIndex (\<lambda>n. note_id n = i2) (noteList w) = None \<longrightarrow>
         ls_notes (elapse ms2 (two_calls i1 c1 ms1 gap i2 c2 ms2 w)) = ls_notes w) \<and>
      (served_row i2 w = None \<longrightarrow>
         table (elapse ms2 (two_calls i1 c1 ms1 gap i2 c2 ms2 w)) = table w) \<and>
      (\<forall>r. served_row i2 w = Some r \<longrightarrow>
         (\<exists>j<length (table w). table w ! j = r \<and>
            table (elapse ms2 (two_calls i1 c1 ms1 gap i2 c2 ms2 w)) =
              (table w)[j := apply_updates (title_and_content c2) (clock w + gap + ms2) r])))"
proof -
  have none: "autoSaveNote i c ms w = w" if "auth w = None"
    using that by (simp add: autoSaveNote_def)
  have two: ?thesis if a: "auth w = Some u" and own: "own_timers w" and gap: "gap < ms1"
  proof -
    let ?t1 = "\<lparr>handle = Suc (handles w), due = clock w + ms1, cb_id = i1, cb_content = c1\<rparr>"
    let ?w1 = "w\<lparr>handles := Suc (handles w), timers := [?t1],
                 autoSaveTimeout := Some (Suc (handles w))\<rparr>"
    let ?w1' = "?w1\<lparr>clock := clock w + gap\<rparr>"
    let ?t2 = "\<lparr>handle = Suc (Suc (handles w)), due = clock w + gap + ms2,
                cb_id = i2, cb_content = c2\<rparr>"
    let ?w2 = "?w1'\<lparr>handles := Suc (Suc (handles w)), timers := [?t2],
                  autoSaveTimeout := Some (Suc (Suc (handles w)))\<rparr>"
    let ?w3 = "w\<lparr>clock := clock w + gap + ms2, handles := Suc (Suc (handles w)), timers := [],
                 autoSaveTimeout := Some (Suc (Suc (handles w)))\<rparr>"
    define w3 where "w3 = w\<lparr>clock := clock w + gap + ms2, handles := Suc (Suc (handles w)),
                 timers := [], autoSaveTimeout := Some (Suc (Suc (handles w)))\<rparr>"
    define upd where "upd = title_and_content c2"
    define F where "F = snd (updateNote i2 upd w3)"
    have a': "auth w \<noteq> None" using a by simp
    have s1: "autoSaveNote i1 c1 ms1 w = ?w1"
      using a' own by (rule autoSaveNote_schedules)
    have s2: "elapse gap ?w1 = ?w1'"
      using gap by (simp add: elapse_early [of _ ?t1])
    have "auth ?w1' \<noteq> None" "own_timers ?w1'"
      using a by (simp_all add: own_timers_def)
    then have s3: "autoSaveNote i2 c2 ms2 ?w1' = ?w2"
      by (simp add: autoSaveNote_schedules)
    have calls: "two_calls i1 c1 ms1 gap i2 c2 ms2 w = ?w2"
      by (simp only: two_calls_def s1 s2 s3)
    have s4: "elapse ms2 ?w2 =
                updateNoteTitle i2 c2 (?w2\<lparr>clock := clock ?w2 + ms2, timers := []\<rparr>)"
      using elapse_due [of ?w2 ?t2 ms2] by simp
    have s5: "?w2\<lparr>clock := clock ?w2 + ms2, timers := []\<rparr> = w3"
      by (simp add: w3_def)
    have c2: "elapse ms2 (two_calls i1 c1 ms1 gap i2 c2 ms2 w) = updateNoteTitle i2 c2 w3"
      by (simp only: calls s4 s5)
    have fin: "elapse ms2 (two_calls i1 c1 ms1 gap i2 c2 ms2 w) = F"
      unfolding c2 F_def upd_def by (simp add: updateNoteTitle_def title_and_content_def)
    have w3: "auth w3 = Some u" "useDatabase w3 = useDatabase w" "noteList w3 = noteList w"
      "clock w3 = clock w + gap + ms2" "sent w3 = sent w" "table w3 = table w"
      "ls_notes w3 = ls_notes w" "ls_writable w3 = ls_writable w" "timers w3 = []"
      using a by (simp_all add: w3_def)
    have sr: "served_row i2 w3 = served_row i2 w"
      unfolding w3_def by (rule served_row_later)
    have c1: "timers (two_calls i1 c1 ms1 gap i2 c2 ms2 w) = [?t2]"
      unfolding calls by simp
    have c3: "timers F = []"
      unfolding F_def using updateNote_timers [of i2 upd w3] w3 by simp
    have c4: "sent F =
        (if useDatabase w
         then sent w @ [Update i2 (uid u) upd (clock w + gap + ms2)]
         else sent w)"
      unfolding F_def using updateNote_sent [OF w3(1), of i2 upd] w3 by simp
    have c5: "noteList F =
        (case findIndex (\<lambda>n. note_id n = i2) (noteList w) of
           None \<Rightarrow> noteList w
         | Some k \<Rightarrow>
             (noteList w)[k := merge (case served_row i2 w of
                                        None \<Rightarrow> noteList w ! k
                                      | Some r \<Rightarrow> note_of_row r)
                                upd (clock w + gap + ms2)])"
      unfolding F_def using updateNote_list [of i2 upd w3] by (simp only: sr w3)
    have c6: "ls_notes F = Some (noteList F)"
      if "findIndex (\<lambda>n. note_id n = i2) (noteList w) = Some k" "ls_writable w" for k
      unfolding F_def using updateNote_mirror [of i2 w3 k upd] that by (simp only: w3)
    have c7: "ls_notes F = ls_notes w"
      if "findIndex (\<lambda>n. note_id n = i2) (noteList w) = None"
      unfolding F_def using updateNote_absent_storage [of i2 w3 upd] that by (simp only: w3)
    have c8: "table F = table w" if "served_row i2 w = None"
      unfolding F_def using updateNote_table [of i2 w3 upd] that by (simp only: sr w3)
    have c9: "\<exists>j<length (table w). table w ! j = r \<and>
            table F = (table w)[j := apply_updates upd (clock w + gap + ms2) r]"
      if "served_row i2 w = Some r" for r
      unfolding F_def using updateNote_table [of i2 w3 upd] that by (simp only: sr w3)
    have c2': "F = updateNoteTitle i2 c2 w3"
      using c2 fin by simp
    show ?thesis
      unfolding fin upd_def [symmetric] w3_def [symmetric]
      using c1 [unfolded fin] c2' c3 c4 c5 c6 c7 c8 c9 none by blast
  qed
  show ?thesis
    using none two by blast
qed

theorem autoSaveNote_debounce_witness:
  "auth (page None three_notes (Some ''a'') [] (\<lambda>k. NoFault)) = None \<and>
   autoSaveNote ''a'' ''<p>typed</p>'' 2000 (page None three_notes (Some ''a'') [] (\<lambda>k. NoFault)) =
     page None three_notes (Some ''a'') [] (\<lambda>k. NoFault) \<and>
   auth (page (Some alice) three_notes (Some ''a'') [] (\<lambda>k. NoFault)) = Some alice \<and>
   own_timers (page (Some alice) three_notes (Some ''a'') [] (\<lambda>k. NoFault)) \<and>
   (500 :: nat) < 2000 \<and>
   findIndex (\<lambda>n. note_id n = ''b'')
     (noteList (page (Some alice) three_notes (Some ''a'') [] (\<lambda>k. NoFault))) = Some 1 \<and>
   ls_writable (page (Some alice) three_notes (Some ''a'') [] (\<lambda>k. NoFault)) \<and>
   served_row ''b'' (page (Some alice) three_notes (Some ''a'') [] (\<lambda>k. NoFault)) = None \<and>
   timers (two_calls ''a'' ''<p>first</p>'' 2000 500 ''b'' ''<p>second</p>'' 2000
      (page (Some alice) three_notes (Some ''a'') [] (\<lambda>k. NoFault))) =
     [\<lparr>handle = 2, due = 3500, cb_id = ''b'', cb_content = ''<p>second</p>''\<rparr>] \<and>
   sent (elapse 2000 (two_calls ''a'' ''<p>first</p>'' 2000 500 ''b'' ''<p>second</p>'' 2000
      (page (Some alice) three_notes (Some ''a'') [] (\<lambda>k. NoFault)))) =
     [Update ''b'' ''u1'' (title_and_content ''<p>second</p>'') 3500] \<and>
   noteList (elapse 2000 (two_calls ''a'' ''<p>first</p>'' 2000 500 ''b'' ''<p>second</p>'' 2000
      (page (Some alice) three_notes (Some ''a'') [] (\<lambda>k. NoFault)))) =
     [mk_note ''a'' ''First'' ''<p>one</p>'',
      \<lparr>note_id = ''b'', title = ''second'', content = ''<p>second</p>'',
       createdAt = 0, updatedAt = 3500\<rparr>,
      mk_note ''c'' ''Third'' ''<p>three</p>''] \<and>
   ls_notes (elapse 2000 (two_calls ''a'' ''<p>first</p>'' 2000 500 ''b'' ''<p>second</p>'' 2000
      (page (Some alice) three_notes (Some ''a'') [] (\<lambda>k. NoFault)))) =
     Some (noteList (elapse 2000 (two_calls ''a'' ''<p>first</p>'' 2000 500 ''b''
       ''<p>second</p>'' 2000 (page (Some alice) three_notes (Some ''a'') [] (\<lambda>k. NoFault))))) \<and>
   table (elapse 2000 (two_calls ''a'' ''<p>first</p>'' 2000 500 ''b'' ''<p>second</p>'' 2000
      (page (Some alice) three_notes (Some ''a'') [] (\<lambda>k. NoFault)))) = []"
proof -
  let ?anon = "page None three_notes (Some ''a'') [] (\<lambda>k. NoFault)"
  let ?w = "page (Some alice) three_notes (Some ''a'') [] (\<lambda>k. NoFault)"
  define T where "T = two_calls ''a'' ''<p>first</p>'' 2000 500 ''b'' ''<p>second</p>'' 2000 ?w"
  define F where "F = elapse 2000 T"
  have h0: "auth ?anon = None"
    by (simp add: page_def)
  have h1: "auth ?w = Some alice" and h2: "own_timers ?w" and h3: "(500 :: nat) < 2000"
    and h4: "findIndex (\<lambda>n. note_id n = ''b'') (noteList ?w) = Some 1"
    and h5: "ls_writable ?w" and h6: "served_row ''b'' ?w = None"
    and h7: "useDatabase ?w"
    by (simp_all add: page_def own_timers_def three_notes_def mk_note_def served_row_def
        fate_def alice_def)
  have f: "handles ?w = 0" "clock ?w = 1000" "sent ?w = []" "uid alice = ''u1''"
    "table ?w = []" "noteList ?w = three_notes"
    by (simp_all add: page_def alice_def)
  have t: "titleFromContent ''<p>second</p>'' = ''second''"
    by (simp add: titleFromContent_def extractFirstLineAsTitle_def trim_def isWhiteSpace_def
        Let_def)
  from autoSaveNote_debounce [of ?anon "''a''" "''<p>typed</p>''" 2000] h0
  have a: "autoSaveNote ''a'' ''<p>typed</p>'' 2000 ?anon = ?anon"
    by blast
  note inst = autoSaveNote_debounce [of ?w _ _ _ alice 500 2000 "''a''" "''<p>first</p>''"
      "''b''" "''<p>second</p>''" 2000, folded T_def F_def]
  from inst h1 h2 h3
  have b: "timers T = [\<lparr>handle = Suc (Suc (handles ?w)), due = clock ?w + 500 + 2000,
             cb_id = ''b'', cb_content = ''<p>second</p>''\<rparr>]"
    and c: "sent F = (if useDatabase ?w
         then sent ?w @ [Update ''b'' (uid alice) (title_and_content ''<p>second</p>'')
                (clock ?w + 500 + 2000)]
         else sent ?w)"
    and d: "noteList F =
        (case findIndex (\<lambda>n. note_id n = ''b'') (noteList ?w) of
           None \<Rightarrow> noteList ?w
         | Some k \<Rightarrow>
             (noteList ?w)[k := merge (case served_row ''b'' ?w of
                                        None \<Rightarrow> noteList ?w ! k
                                      | Some r \<Rightarrow> note_of_row r)
                                (title_and_content ''<p>second</p>'') (clock ?w + 500 + 2000)])"
    and e: "\<forall>k. findIndex (\<lambda>n. note_id n = ''b'') (noteList ?w) = Some k \<and> ls_writable ?w \<longrightarrow>
         ls_notes F = Some (noteList F)"
    and g: "served_row ''b'' ?w = None \<longrightarrow> table F = table ?w"
    by blast+
  from e h4 h5 have e': "ls_notes F = Some (noteList F)" by blast
  from g h6 have g': "table F = []" by (simp add: f)
  from d have d': "noteList F =
     [mk_note ''a'' ''First'' ''<p>one</p>'',
      \<lparr>note_id = ''b'', title = ''second'', content = ''<p>second</p>'',
       createdAt = 0, updatedAt = 3500\<rparr>,
      mk_note ''c'' ''Third'' ''<p>three</p>'']"
    unfolding h4 h6 f
    by (simp add: three_notes_def merge_def title_and_content_def t mk_note_def)
  from c h7 have c': "sent F = [Update ''b'' ''u1'' (title_and_content ''<p>second</p>'') 3500]"
    by (simp add: f)
  from b have b': "timers T = [\<lparr>handle = 2, due = 3500, cb_id = ''b'',
       cb_content = ''<p>second</p>''\<rparr>]"
    by (simp add: f)
  show ?thesis
    unfolding T_def [symmetric] F_def [symmetric]
    using h0 h1 h2 h3 h4 h5 h6 a b' c' d' e' g' by simp
qed

text \<open>
  The store works locally and the second call names a note that is not in the list: when
  the delay is over nothing has been written, neither to the list nor to the local
  storage nor to the table.
\<close>

lemma signed_in_local_run:
  "elapse 2000 (two_calls ''a'' ''<p>first</p>'' 2000 500 ''zz'' ''<p>second</p>'' 2000
      signed_in_local) =
   signed_in_local\<lparr>clock := 3500, handles := 2, timers := [], autoSaveTimeout := Some 2\<rparr>"
  by (simp add: two_calls_def signed_in_local_def page_def autoSaveNote_def setTimeout_def
      clearTimeout_def elapse_def run_timer_def updateNoteTitle_def updateNote_def
      updateNoteInStorage_def three_notes_def mk_note_def Let_def)

theorem autoSaveNote_absent_counterexample:
  "auth signed_in_local = Some alice \<and> own_timers signed_in_local \<and> (500 :: nat) < 2000 \<and>
   map note_id (noteList signed_in_local) = [''a'', ''b'', ''c''] \<and>
   noteList (elapse 2000 (two_calls ''a'' ''<p>first</p>'' 2000 500 ''zz'' ''<p>second</p>'' 2000
      signed_in_local)) = noteList signed_in_local \<and>
   ls_notes (elapse 2000 (two_calls ''a'' ''<p>first</p>'' 2000 500 ''zz'' ''<p>second</p>'' 2000
      signed_in_local)) = ls_notes signed_in_local \<and>
   table (elapse 2000 (two_calls ''a'' ''<p>first</p>'' 2000 500 ''zz'' ''<p>second</p>'' 2000
      signed_in_local)) = table signed_in_local \<and>
   sent (elapse 2000 (two_calls ''a'' ''<p>first</p>'' 2000 500 ''zz'' ''<p>second</p>'' 2000
      signed_in_local)) = []"
proof -
  have "auth signed_in_local = Some alice" "own_timers signed_in_local"
    "map note_id (noteList signed_in_local) = [''a'', ''b'', ''c'']" "sent signed_in_local = []"
    by (simp_all add: signed_in_local_def page_def own_timers_def three_notes_def mk_note_def)
  then show ?thesis
    unfolding signed_in_local_run by simp
qed

subsection \<open>Export\<close>

lemma toLowerCase_underscore: "toLowerCase_char (CHR ''_'') = CHR ''_''"
  by (simp add: toLowerCase_char_def)

lemma sanitizeFilename_map:
  "sanitizeFilename t = map (\<lambda>c. if isAlnum c then toLowerCase_char c else CHR ''_'') t"
  by (simp add: sanitizeFilename_def toLowerCase_def toLowerCase_underscore)

text \<open>
  C8, as the code has it. For an identifier in the list \<open>exportNoteAsText\<close> returns the
  title, the text the browser reads from the content, and a file name that has one
  character for each character of the title, the lower-cased character for a letter or
  digit and an underscore for any other, with \<^verbatim>\<open>.txt\<close> appended. For an identifier that
  is not in the list it returns nothing.
\<close>

theorem exportNoteAsText_result:
  "(find (\<lambda>n. note_id n = i) (noteList w) = None \<longrightarrow> exportNoteAsText d i w = None) \<and>
   (\<forall>n. find (\<lambda>n. note_id n = i) (noteList w) = Some n \<longrightarrow>
      exportNoteAsText d i w =
        Some \<lparr>export_title = title n,
              export_content = plainTextOf d (content n),
              export_filename =
                map (\<lambda>c. if isAlnum c then toLowerCase_char c else CHR ''_'') (title n)
                  @ ''.txt''\<rparr>)"
  by (simp add: exportNoteAsText_def getNoteById_def sanitizeFilename_map)

lemma sanitize_example: "sanitizeFilename ''My  Note'' = ''my__note''"
  by code_simp

lemma filename_spec_example: "filename_spec ''My  Note'' = ''my_note.txt''"
  by code_simp

lemma export_example:
  "exportNoteAsText tag_dom ''n1'' (page None titled (Some ''n1'') [] (\<lambda>k. NoFault)) =
     Some \<lparr>export_title = ''My  Note'', export_content = ''Hello world'',
           export_filename = ''my__note.txt''\<rparr>"
  by (simp add: exportNoteAsText_def getNoteById_def page_def titled_def mk_note_def
      plainTextOf_def tag_dom_def sanitize_example)

theorem exportNoteAsText_result_witness:
  "find (\<lambda>n. note_id n = ''zz'') (noteList (page None titled (Some ''n1'') [] (\<lambda>k. NoFault))) = None \<and>
   exportNoteAsText tag_dom ''zz'' (page None titled (Some ''n1'') [] (\<lambda>k. NoFault)) = None \<and>
   find (\<lambda>n. note_id n = ''n1'') (noteList (page None titled (Some ''n1'') [] (\<lambda>k. NoFault)))
     = Some (mk_note ''n1'' ''My  Note'' ''<p>Hello <b>world</b></p>'') \<and>
   map_option export_filename
     (exportNoteAsText tag_dom ''n1'' (page None titled (Some ''n1'') [] (\<lambda>k. NoFault)))
     = Some ''my__note.txt''"
proof -
  let ?w = "page None titled (Some ''n1'') [] (\<lambda>k. NoFault)"
  have h1: "find (\<lambda>n. note_id n = ''zz'') (noteList ?w) = None"
    by (simp add: page_def titled_def mk_note_def)
  have h2: "find (\<lambda>n. note_id n = ''n1'') (noteList ?w)
              = Some (mk_note ''n1'' ''My  Note'' ''<p>Hello <b>world</b></p>'')"
    by (simp add: page_def titled_def mk_note_def)
  have name: "map (\<lambda>c. if isAlnum c then toLowerCase_char c else CHR ''_'') ''My  Note'' = ''my__note''"
    by code_simp
  have t: "title (mk_note ''n1'' ''My  Note'' ''<p>Hello <b>world</b></p>'') = ''My  Note''"
    by (simp add: mk_note_def)
  from exportNoteAsText_result [of "''zz''" ?w tag_dom] h1
  have r1: "exportNoteAsText tag_dom ''zz'' ?w = None" by blast
  from exportNoteAsText_result [of "''n1''" ?w tag_dom] h2
  have "exportNoteAsText tag_dom ''n1'' ?w =
          Some \<lparr>export_title = title (mk_note ''n1'' ''My  Note'' ''<p>Hello <b>world</b></p>''),
                export_content =
                  plainTextOf tag_dom (content (mk_note ''n1'' ''My  Note'' ''<p>Hello <b>world</b></p>'')),
                export_filename =
                  map (\<lambda>c. if isAlnum c then toLowerCase_char c else CHR ''_'')
                    (title (mk_note ''n1'' ''My  Note'' ''<p>Hello <b>world</b></p>'')) @ ''.txt''\<rparr>"
    by blast
  then have r2: "map_option export_filename (exportNoteAsText tag_dom ''n1'' ?w) = Some ''my__note.txt''"
    unfolding t name by simp
  show ?thesis using h1 h2 r1 r2 by simp
qed

text \<open>
  Two spaces in a title give two underscores, not the single one of the specification.
\<close>

theorem exportNoteAsText_runs_counterexample:
  "map title titled = [''My  Note''] \<and>
   filename_spec ''My  Note'' = ''my_note.txt'' \<and>
   map_option export_filename
     (exportNoteAsText tag_dom ''n1'' (page None titled (Some ''n1'') [] (\<lambda>k. NoFault)))
     = Some ''my__note.txt'' \<and>
   map_option export_filename
     (exportNoteAsText tag_dom ''n1'' (page None titled (Some ''n1'') [] (\<lambda>k. NoFault)))
     \<noteq> Some (filename_spec ''My  Note'')"
proof -
  have "map title titled = [''My  Note'']"
    by (simp add: titled_def mk_note_def)
  then show ?thesis
    by (simp add: export_example filename_spec_example)
qed

subsection \<open>The undo history\<close>

lemma saveState_ok: "history_ok e \<Longrightarrow> history_ok (saveState e)"
  by (auto simp: history_ok_def saveState_def Let_def)

lemma setContent_ok: "history_ok e \<Longrightarrow> history_ok (setContent reparse html e)"
  unfolding setContent_def
  by (rule saveState_ok) (simp add: history_ok_def)

lemma undo_ok: "history_ok e \<Longrightarrow> history_ok (undo reparse e)"
proof -
  assume ok: "history_ok e"
  show ?thesis
  proof (cases "undoStack e = []")
    case True
    with ok show ?thesis by (simp add: undo_def)
  next
    case False
    let ?e2 = "e\<lparr>undoStack := butlast (undoStack e),
                  redoStack := redoStack e @ [getContent e]\<rparr>"
    from ok False have "history_ok ?e2"
      by (cases "undoStack e") (auto simp: history_ok_def)
    then have "history_ok (setContent reparse (last (undoStack e)) ?e2)"
      by (rule setContent_ok)
    then show ?thesis
      using False by (simp add: undo_def Let_def history_ok_def)
  qed
qed

lemma redo_ok: "history_ok e \<Longrightarrow> history_ok (redo reparse e)"
proof -
  assume ok: "history_ok e"
  show ?thesis
  proof (cases "redoStack e = []")
    case True
    with ok show ?thesis by (simp add: redo_def)
  next
    case False
    let ?e2 = "e\<lparr>redoStack := butlast (redoStack e),
                  undoStack := undoStack e @ [getContent (e\<lparr>redoStack := butlast (redoStack e)\<rparr>)]\<rparr>"
    from ok False have "history_ok ?e2"
      by (cases "redoStack e") (auto simp: history_ok_def)
    then have "history_ok (setContent reparse (last (redoStack e)) ?e2)"
      by (rule setContent_ok)
    then show ?thesis
      using False by (simp add: redo_def Let_def history_ok_def)
  qed
qed

lemma editor_step_ok: "history_ok e \<Longrightarrow> history_ok (editor_step reparse x e)"
  by (cases x) (simp_all add: saveState_ok undo_ok redo_ok setContent_ok, simp add: history_ok_def)

lemma editor_run_ok: "history_ok e \<Longrightarrow> history_ok (editor_run reparse ops e)"
  unfolding editor_run_def
  by (induction ops arbitrary: e) (simp_all add: editor_step_ok)

lemma new_Editor_ok: "history_ok (new_Editor html)"
  unfolding new_Editor_def by (rule saveState_ok) (simp add: history_ok_def)

text \<open>
  C10. After the constructor and any sequence of saves, undos, redos, changes of the
  shown note and edits by the user, the undo stack holds at most 50 states. A
  \<open>saveState\<close> that finds new content empties the redo stack; it drops the oldest
  state of a full undo stack and appends the last saved state.
\<close>

theorem undo_history_bounded:
  "length (undoStack (editor_run reparse ops (new_Editor html))) \<le> 50 \<and>
   (getContent e \<noteq> lastSavedState e \<longrightarrow> redoStack (saveState e) = []) \<and>
   (getContent e \<noteq> lastSavedState e \<and> maxUndoLevels e = 50 \<and> length (undoStack e) = 50 \<longrightarrow>
      undoStack (saveState e) = tl (undoStack e) @ [lastSavedState e]) \<and>
   (getContent e \<noteq> lastSavedState e \<and> length (undoStack e) < maxUndoLevels e \<longrightarrow>
      undoStack (saveState e) = undoStack e @ [lastSavedState e])"
proof -
  have "history_ok (editor_run reparse ops (new_Editor html))"
    by (rule editor_run_ok [OF new_Editor_ok])
  then have bound: "length (undoStack (editor_run reparse ops (new_Editor html))) \<le> 50"
    by (simp add: history_ok_def)
  have full: "undoStack (saveState e) = tl (undoStack e) @ [lastSavedState e]"
    if "getContent e \<noteq> lastSavedState e" "maxUndoLevels e = 50" "length (undoStack e) = 50"
    using that by (cases "undoStack e") (simp_all add: saveState_def Let_def)
  show ?thesis
    using bound full by (simp add: saveState_def Let_def)
qed

theorem undo_history_bounded_witness:
  "length (undoStack (editor_run (\<lambda>h. h) [Input ''<p>a</p>'', SaveState, Undo, Redo]
      (new_Editor ''<p><br></p>''))) \<le> 50 \<and>
   getContent full_editor \<noteq> lastSavedState full_editor \<and>
   maxUndoLevels full_editor = 50 \<and>
   length (undoStack full_editor) = 50 \<and>
   redoStack (saveState full_editor) = [] \<and>
   undoStack (saveState full_editor) = replicate 49 ''<p>old</p>'' @ [''<p>last</p>''] \<and>
   length (undoStack (new_Editor ''<p><br></p>'')) < maxUndoLevels (new_Editor ''<p><br></p>'') \<and>
   getContent ((new_Editor ''<p><br></p>'')\<lparr>innerHTML := ''<p>a</p>''\<rparr>) \<noteq>
     lastSavedState ((new_Editor ''<p><br></p>'')\<lparr>innerHTML := ''<p>a</p>''\<rparr>) \<and>
   undoStack (saveState ((new_Editor ''<p><br></p>'')\<lparr>innerHTML := ''<p>a</p>''\<rparr>)) =
     [[], ''<p><br></p>'']"
proof -
  let ?e = "(new_Editor ''<p><br></p>'')\<lparr>innerHTML := ''<p>a</p>''\<rparr>"
  have a: "getContent full_editor \<noteq> lastSavedState full_editor"
    and b: "maxUndoLevels full_editor = 50"
    and c: "length (undoStack full_editor) = 50"
    and d: "tl (undoStack full_editor) = replicate 49 ''<p>old</p>''"
    and l: "lastSavedState full_editor = ''<p>last</p>''"
    by (simp_all add: full_editor_def getContent_def eval_nat_numeral)
  have f: "getContent ?e \<noteq> lastSavedState ?e"
    and g: "length (undoStack ?e) < maxUndoLevels ?e"
    and h: "undoStack ?e = [[]]" and k: "lastSavedState ?e = ''<p><br></p>''"
    by (simp_all add: new_Editor_def saveState_def getContent_def Let_def)
  have g': "length (undoStack (new_Editor ''<p><br></p>'')) < maxUndoLevels (new_Editor ''<p><br></p>'')"
    using g by simp
  show ?thesis
    using undo_history_bounded [of "\<lambda>h. h" "[Input ''<p>a</p>'', SaveState, Undo, Redo]"
        "''<p><br></p>''" full_editor]
      undo_history_bounded [of "\<lambda>h. h" "[]" "''<p><br></p>''" ?e]
      a b c d l f g g' h k
    by simp
qed

end
